theory Spec2Isabelle
  imports Main
begin

text \<open>
  The prototypes of the repository that refine a document of cells step by step with a
  language model: the cell solver that applies the changes a response lists, the solver
  that recovers from a response it cannot parse, the project tree with its history, and
  the parser of task lines. The model, the identifier source and the JSON library are
  outside the program and are parameters here.
\<close>

section \<open>Python strings\<close>

text \<open>
  The prototypes are Python. A \<open>str\<close> is modelled as a \<open>string\<close> (a list of characters) of
  ASCII text: whitespace is the ASCII whitespace of \<open>str.strip\<close> and \<open>str.split\<close>, and
  \<open>str.upper\<close> maps the letters \<open>a\<close> to \<open>z\<close>. Exceptions are values of \<open>py_error\<close>.
\<close>

datatype py_error =
  IndexError | KeyError | UnboundLocalError | JSONDecodeError | ValueError | TypeError | RecursionError

definition is_space :: "char \<Rightarrow> bool" where
  "is_space c = (c \<in> set [CHR 0x09, CHR 0x0A, CHR 0x0B, CHR 0x0C, CHR 0x0D,
                            CHR 0x1C, CHR 0x1D, CHR 0x1E, CHR 0x1F, CHR 0x20])"

definition lstrip :: "string \<Rightarrow> string" where
  "lstrip s = dropWhile is_space s"

definition rstrip :: "string \<Rightarrow> string" where
  "rstrip s = rev (dropWhile is_space (rev s))"

definition strip :: "string \<Rightarrow> string" where
  "strip s = rstrip (lstrip s)"

definition startswith :: "string \<Rightarrow> string \<Rightarrow> bool" where
  "startswith s p = (take (length p) s = p)"

text \<open>\<open>s.split(c)\<close> for a one-character separator: never empty, \<open>''.split(c) == ['']\<close>.\<close>

fun split_on :: "char \<Rightarrow> string \<Rightarrow> string list" where
  "split_on c [] = [[]]"
| "split_on c (x # xs) =
     (if x = c then [] # split_on c xs
      else (case split_on c xs of [] \<Rightarrow> [[x]] | w # ws \<Rightarrow> (x # w) # ws))"

text \<open>The first occurrence of \<open>sep\<close> in \<open>s\<close>: the text before it and the text after it.\<close>

fun find_sub :: "string \<Rightarrow> string \<Rightarrow> (string \<times> string) option" where
  "find_sub sep [] = (if sep = [] then Some ([], []) else None)"
| "find_sub sep (x # xs) =
     (if startswith (x # xs) sep then Some ([], drop (length sep) (x # xs))
      else (case find_sub sep xs of None \<Rightarrow> None | Some (b, a) \<Rightarrow> Some (x # b, a)))"

text \<open>\<open>sub in s\<close>.\<close>

definition contains :: "string \<Rightarrow> string \<Rightarrow> bool" where
  "contains s sub = (find_sub sub s \<noteq> None)"

text \<open>\<open>s.split(sep, 1)\<close>: one part when \<open>sep\<close> does not occur, two parts otherwise.\<close>

definition split_max1 :: "string \<Rightarrow> string \<Rightarrow> string list" where
  "split_max1 s sep = (case find_sub sep s of None \<Rightarrow> [s] | Some (b, a) \<Rightarrow> [b, a])"

text \<open>\<open>s.split()\<close>: the maximal runs of non-whitespace characters; \<open>w\<close> is the run being read,
  reversed.\<close>

fun split_ws_acc :: "string \<Rightarrow> string \<Rightarrow> string list" where
  "split_ws_acc w [] = (if w = [] then [] else [rev w])"
| "split_ws_acc w (c # cs) =
     (if is_space c then (if w = [] then split_ws_acc [] cs else rev w # split_ws_acc [] cs)
      else split_ws_acc (c # w) cs)"

definition split_ws :: "string \<Rightarrow> string list" where
  "split_ws s = split_ws_acc [] s"

text \<open>\<open>xs[i]\<close> for \<open>i \<ge> 0\<close>: IndexError out of range.\<close>

definition index :: "'a list \<Rightarrow> nat \<Rightarrow> py_error + 'a" where
  "index xs i = (if i < length xs then Inr (xs ! i) else Inl IndexError)"

definition upper_char :: "char \<Rightarrow> char" where
  "upper_char c =
     (if (97::nat) \<le> of_char c \<and> of_char c \<le> (122::nat) then char_of (of_char c - (32::nat)) else c)"

definition upper :: "string \<Rightarrow> string" where
  "upper s = map upper_char s"

section \<open>Python dictionaries\<close>

text \<open>
  A \<open>dict\<close> keeps its keys in insertion order: an association list with distinct keys.
  \<open>d[k] = v\<close> replaces the value of a key that is present, in place, and appends a new key.
\<close>

type_synonym ('k, 'v) dict = "('k \<times> 'v) list"

fun dict_set :: "('k, 'v) dict \<Rightarrow> 'k \<Rightarrow> 'v \<Rightarrow> ('k, 'v) dict" where
  "dict_set [] k v = [(k, v)]"
| "dict_set ((k', v') # d) k v = (if k' = k then (k, v) # d else (k', v') # dict_set d k v)"

definition dict_get :: "('k, 'v) dict \<Rightarrow> 'k \<Rightarrow> 'v option" where
  "dict_get d k = map_of d k"

definition dict_has :: "('k, 'v) dict \<Rightarrow> 'k \<Rightarrow> bool" where
  "dict_has d k = (k \<in> set (map fst d))"

section \<open>The cell solver (\<open>rj_copy_document_gen_v4\<close>)\<close>

text \<open>
  \<open>Any\<close>: the Python values that the prototypes keep without reading them (metadata, node
  content, parsed JSON), as the values that JSON texts denote, floats aside.
  The solver only ever stores \<open>Cell\<close> objects in \<open>cells\<close>.
\<close>

datatype pyobj =
    PyNone
  | PyBool bool
  | PyInt int
  | PyStr string
  | PyList "pyobj list"
  | PyDict "(string \<times> pyobj) list"

record cell =
  cell_id :: string
  content :: string
  references :: "string list"
  metadata :: "(string, pyobj) dict"

record system_state =
  cells :: "(string, cell) dict"
  current_cell_id :: "string option"
  state_metadata :: "(string, pyobj) dict"

text \<open>
  \<open>str(uuid.uuid4())\<close> is a source of identifiers outside the program: \<open>uuid4 n\<close> is the
  identifier that the \<open>n\<close>-th call returns, and the number of calls made so far is threaded
  through the code that draws from it.
\<close>

type_synonym uuid_source = "nat \<Rightarrow> string"

text \<open>The list comprehension of \<open>_apply_changes\<close>: the stripped lines that start with \<open>-\<close>
  or \<open>SET\<close>.\<close>

definition changes_of :: "string \<Rightarrow> string list" where
  "changes_of response =
     map strip (filter (\<lambda>line. startswith (strip line) ''-'' \<or> startswith (strip line) ''SET'')
                       (split_on CHR 0x0A response))"

text \<open>One turn of the loop body of \<open>_apply_changes\<close> on \<open>new_state\<close>.\<close>

definition apply_change ::
  "uuid_source \<Rightarrow> nat \<times> system_state \<Rightarrow> string \<Rightarrow> py_error + nat \<times> system_state" where
  "apply_change uuid4 ns change =
     (case ns of (n, new_state) \<Rightarrow>
      if startswith change ''- NEW CELL:'' then
        (let cid = uuid4 n in
         case index (split_max1 change '':'') 1 of
           Inl e \<Rightarrow> Inl e
         | Inr rest \<Rightarrow>
             Inr (Suc n, new_state\<lparr>cells := dict_set (cells new_state) cid
                    \<lparr>cell_id = cid, content = strip rest, references = [], metadata = []\<rparr>\<rparr>))
      else if startswith change ''- MODIFY CELL'' then
        (case index (split_ws change) 3 of
           Inl e \<Rightarrow> Inl e
         | Inr cid \<Rightarrow>
             (case index (split_max1 change '':'') 1 of
                Inl e \<Rightarrow> Inl e
              | Inr rest \<Rightarrow>
                  (case dict_get (cells new_state) cid of
                     Some c \<Rightarrow>
                       Inr (n, new_state\<lparr>cells :=
                              dict_set (cells new_state) cid (c\<lparr>content := strip rest\<rparr>)\<rparr>)
                   | None \<Rightarrow> Inr (n, new_state))))
      else if startswith change ''SET CURRENT:'' then
        (case index (split_max1 change '':'') 1 of
           Inl e \<Rightarrow> Inl e
         | Inr rest \<Rightarrow>
             (if dict_has (cells new_state) (strip rest)
              then Inr (n, new_state\<lparr>current_cell_id := Some (strip rest)\<rparr>)
              else Inr (n, new_state)))
      else Inr (n, new_state))"

text \<open>The \<open>for change in changes\<close> loop: an exception ends it.\<close>

fun apply_changes_loop ::
  "uuid_source \<Rightarrow> nat \<times> system_state \<Rightarrow> string list \<Rightarrow> py_error + nat \<times> system_state" where
  "apply_changes_loop uuid4 ns [] = Inr ns"
| "apply_changes_loop uuid4 ns (change # changes) =
     (case apply_change uuid4 ns change of
        Inl e \<Rightarrow> Inl e
      | Inr ns' \<Rightarrow> apply_changes_loop uuid4 ns' changes)"

text \<open>\<open>_apply_changes(state, response)\<close>; \<open>deepcopy(state)\<close> is the value \<open>state\<close> itself here
  (the objects and their addresses are modelled in a later section).\<close>

definition apply_changes ::
  "uuid_source \<Rightarrow> nat \<Rightarrow> system_state \<Rightarrow> string \<Rightarrow> py_error + nat \<times> system_state" where
  "apply_changes uuid4 n state response = apply_changes_loop uuid4 (n, state) (changes_of response)"


text \<open>A change that names a cell that is not in the state: a well-formed \<open>MODIFY CELL\<close> line
  whose fourth word is no key of \<open>cells\<close>, or a \<open>SET CURRENT:\<close> line whose text after the colon
  is no key of \<open>cells\<close>.\<close>

definition names_missing_cell :: "system_state \<Rightarrow> string \<Rightarrow> bool" where
  "names_missing_cell state change =
     (\<not> startswith change ''- NEW CELL:'' \<and>
      (if startswith change ''- MODIFY CELL'' then
         (case (index (split_ws change) 3, index (split_max1 change '':'') 1) of
            (Inr cid, Inr rest) \<Rightarrow> \<not> dict_has (cells state) cid
          | _ \<Rightarrow> False)
       else startswith change ''SET CURRENT:'' \<and>
         (case index (split_max1 change '':'') 1 of
            Inr rest \<Rightarrow> \<not> dict_has (cells state) (strip rest)
          | Inl e \<Rightarrow> False)))"

subsection \<open>Prompts and the model\<close>

text \<open>\<open>sep.join(xs)\<close>.\<close>

fun join :: "string \<Rightarrow> string list \<Rightarrow> string" where
  "join sep [] = []"
| "join sep [x] = x"
| "join sep (x # y # ys) = x @ sep @ join sep (y # ys)"

text \<open>
  The configuration dictionary. A template is the function that \<open>str.format\<close> computes from
  it: the text of the template with the named fields filled in.
\<close>

record solver_config =
  process_prompt :: string
  state_format_template :: "string \<Rightarrow> string \<Rightarrow> string"
  solution_prompt :: "string \<Rightarrow> string"
  current_focus_template :: "string \<Rightarrow> string \<Rightarrow> string"
  cell_format_template :: "string \<Rightarrow> string \<Rightarrow> string"

definition DEFAULT_SOLVER_CONFIG :: solver_config where
  "DEFAULT_SOLVER_CONFIG = \<lparr>
     process_prompt =
       ''\<newline>'' @
       ''        You are a universal problem solver. Here's our suggested process:\<newline>'' @
       ''\<newline>'' @
       ''        1. Analyze the problem and break into subproblems if needed\<newline>'' @
       ''        2. Plan and document your approach\<newline>'' @
       ''        3. Execute one clear step at a time\<newline>'' @
       ''        4. Verify results and maintain organization\<newline>'' @
       ''\<newline>'' @
       ''        Based on the current state, please:\<newline>'' @
       ''        1. Analyze the situation\<newline>'' @
       ''        2. Decide the next step\<newline>'' @
       ''        3. Specify EXACT changes to make to the system\<newline>'' @
       ''\<newline>'' @
       ''        Format your response as:\<newline>'' @
       ''        REASONING: Your analysis and decision-making process\<newline>'' @
       ''        CHANGES: List each change in this format:\<newline>'' @
       ''        - NEW CELL: <content>\<newline>'' @
       ''        - MODIFY CELL <id>: <new_content>\<newline>'' @
       ''        - SET CURRENT: <cell_id>\<newline>'' @
       ''        STATUS: Either \"CONTINUE\" or \"SOLVED\"\<newline>'' @
       ''\<newline>'' @
       ''        Be precise - your changes will be applied exactly as specified.\<newline>'' @
       ''    '',
     state_format_template = (\<lambda>focus others.
       ''\<newline>'' @
       ''        CURRENT SYSTEM STATE\<newline>'' @
       ''        ===================\<newline>'' @
       ''        '' @ focus @ ''\<newline>'' @
       ''        \<newline>'' @
       ''        ALL CELLS:\<newline>'' @
       ''        '' @ others @ ''\<newline>'' @
       ''    ''),
     solution_prompt = (\<lambda>description.
       ''\<newline>'' @
       ''        Based on the final state:\<newline>'' @
       ''        '' @ description @ ''\<newline>'' @
       ''        \<newline>'' @
       ''        Please provide the complete solution in a clear format.\<newline>'' @
       ''    ''),
     current_focus_template = (\<lambda>cid text.
       ''\<newline>'' @
       ''        CURRENT FOCUS:\<newline>'' @
       ''        Cell '' @ cid @ '':\<newline>'' @
       ''        '' @ text @ ''\<newline>'' @
       ''    ''),
     cell_format_template = (\<lambda>cid text.
       ''\<newline>'' @
       ''        Cell '' @ cid @ '':\<newline>'' @
       ''        '' @ text @ ''\<newline>'' @
       ''    '')\<rparr>"

definition format_state :: "system_state \<Rightarrow> solver_config \<Rightarrow> string" where
  "format_state state config =
     (let current_focus =
            (case current_cell_id state of
               None \<Rightarrow> []
             | Some cid \<Rightarrow>
                 (if cid \<noteq> [] then
                    (case dict_get (cells state) cid of
                       Some current \<Rightarrow> current_focus_template config cid (content current)
                     | None \<Rightarrow> [])
                  else []));
          all_cells =
            map (\<lambda>(cid, c). cell_format_template config cid (content c))
                (filter (\<lambda>(cid, c). Some cid \<noteq> current_cell_id state) (cells state))
      in state_format_template config current_focus (join ''\<newline>'' all_cells))"

text \<open>
  The language model is outside the program: \<open>llm k prompt\<close> is the text that the \<open>k\<close>-th call
  of \<open>get_completion\<close> returns for \<open>prompt\<close>. The calls are the only effect of the solver
  besides its result, and an iteration is modelled with the list of the calls it makes.
\<close>

type_synonym llm_interface = "nat \<Rightarrow> string \<Rightarrow> string"

datatype effect = GetCompletion string

subsection \<open>The solving loop\<close>

definition initial_state :: "string \<Rightarrow> system_state" where
  "initial_state query =
     \<lparr>cells = [(''initial'',
                 \<lparr>cell_id = ''initial'', content = query, references = [], metadata = []\<rparr>)],
      current_cell_id = Some ''initial'', state_metadata = []\<rparr>"

text \<open>What one turn of \<open>while True\<close> does: \<open>break\<close>, go on with a new state (and the number
  of identifiers drawn), or leave \<open>solve\<close> with an exception.\<close>

datatype iteration = Break | Continue nat system_state | Raise py_error

definition iteration_prompt :: "solver_config \<Rightarrow> system_state \<Rightarrow> string" where
  "iteration_prompt config state =
     process_prompt config @ ''\<newline>\<newline>Current State:\<newline>'' @ format_state state config"

definition solve_iteration ::
  "llm_interface \<Rightarrow> uuid_source \<Rightarrow> solver_config \<Rightarrow> nat \<Rightarrow> nat \<Rightarrow> system_state
     \<Rightarrow> effect list \<times> iteration" where
  "solve_iteration llm uuid4 config k n state =
     (let response = llm k (iteration_prompt config state)
      in ([GetCompletion (iteration_prompt config state)],
          if contains response ''STATUS: SOLVED'' then Break
          else (case apply_changes uuid4 n state response of
                  Inl e \<Rightarrow> Raise e
                | Inr (n', state') \<Rightarrow> Continue n' state')))"

definition get_solution :: "llm_interface \<Rightarrow> solver_config \<Rightarrow> nat \<Rightarrow> system_state \<Rightarrow> string" where
  "get_solution llm config k state = llm k (solution_prompt config (format_state state config))"

text \<open>\<open>while True\<close>: a run that never leaves the loop has the value \<open>None\<close>.\<close>

partial_function (option) solve_loop ::
  "llm_interface \<Rightarrow> uuid_source \<Rightarrow> solver_config \<Rightarrow> nat \<Rightarrow> nat \<Rightarrow> system_state
     \<Rightarrow> (py_error + string) option" where
  "solve_loop llm uuid4 config k n state =
     (case snd (solve_iteration llm uuid4 config k n state) of
        Break \<Rightarrow> Some (Inr (get_solution llm config (Suc k) state))
      | Raise e \<Rightarrow> Some (Inl e)
      | Continue n' state' \<Rightarrow> solve_loop llm uuid4 config (Suc k) n' state')"

definition solve :: "llm_interface \<Rightarrow> uuid_source \<Rightarrow> solver_config \<Rightarrow> string
     \<Rightarrow> (py_error + string) option" where
  "solve llm uuid4 config query = solve_loop llm uuid4 config 0 0 (initial_state query)"

text \<open>
  The run of the loop from its \<open>k\<close>-th model call: \<open>state_after \<dots> j\<close> is the state (with the
  number of identifiers drawn) at the head of the turn that follows \<open>j\<close> completed turns, and
  \<open>None\<close> when the loop has ended before, by \<open>break\<close> or by an exception. Every turn makes
  one model call, so the response that this turn receives is that of call \<open>k + j\<close>.
\<close>

fun state_after ::
  "llm_interface \<Rightarrow> uuid_source \<Rightarrow> solver_config \<Rightarrow> nat \<Rightarrow> nat \<Rightarrow> system_state \<Rightarrow> nat
     \<Rightarrow> (nat \<times> system_state) option" where
  "state_after llm uuid4 config k n state 0 = Some (n, state)"
| "state_after llm uuid4 config k n state (Suc j) =
     (case snd (solve_iteration llm uuid4 config k n state) of
        Continue n' state' \<Rightarrow> state_after llm uuid4 config (Suc k) n' state' j
      | Break \<Rightarrow> None
      | Raise e \<Rightarrow> None)"


section \<open>The solver with recovery (\<open>Final code v10 self improving\<close>)\<close>

record system_state_v10 =
  cells_v10 :: "(string, string) dict"
  current_cell_id_v10 :: "string option"

record solver_config_v10 =
  main_prompt :: string
  correction_prompt :: "string \<Rightarrow> string \<Rightarrow> string"
  fallback_prompt :: string
  solution_prompt_v10 :: "string \<Rightarrow> string"

definition DEFAULT_SOLVER_CONFIG_v10 :: solver_config_v10 where
  "DEFAULT_SOLVER_CONFIG_v10 = \<lparr>
     main_prompt =
       ''\<newline>'' @
       ''        You are a universal problem solver. Examine the current state and either:\<newline>'' @
       ''        1. Say 'SOLVED' and give the solution if the problem is solved\<newline>'' @
       ''        2. Specify the exact next state needed to make progress\<newline>'' @
       ''\<newline>'' @
       ''        When specifying a state:\<newline>'' @
       ''        - Start with 'NEXT STATE:'\<newline>'' @
       ''        - List each cell as 'CELL: <content>'\<newline>'' @
       ''        - Mark the current focus with 'CURRENT CELL: <content>'\<newline>'' @
       ''        - End with 'END STATE'\<newline>'' @
       ''\<newline>'' @
       ''        Include your reasoning before specifying the state.\<newline>'' @
       ''    '',
     correction_prompt = (\<lambda>response issues.
       ''\<newline>'' @
       ''        I couldn't understand the state specification in your response:\<newline>'' @
       ''        '' @ response @ ''\<newline>'' @
       ''        Please provide the next state using this exact format:\<newline>'' @
       ''        NEXT STATE:\<newline>'' @
       ''        CELL: <first cell content>\<newline>'' @
       ''        CELL: <second cell content>\<newline>'' @
       ''        CURRENT CELL: <current focus content>\<newline>'' @
       ''        END STATE\<newline>'' @
       ''        Previous response formatting issues: '' @ issues @ ''\<newline>'' @
       ''    ''),
     fallback_prompt =
       ''\<newline>'' @
       ''        Please just list the cells for the next state, one per line, \<newline>'' @
       ''        and mark one as current. Nothing else.\<newline>'' @
       ''    '',
     solution_prompt_v10 = (\<lambda>description.
       ''\<newline>'' @
       ''        Based on the final state:\<newline>'' @
       ''        '' @ description @ ''\<newline>'' @
       ''        Please provide the complete solution in a clear format.\<newline>'' @
       ''    '')\<rparr>"

definition format_state_v10 :: "system_state_v10 \<Rightarrow> string" where
  "format_state_v10 state =
     join ''\<newline>''
       (map (\<lambda>(cid, text).
               ''\<newline>Cell '' @ cid
               @ (if Some cid = current_cell_id_v10 state then '' (CURRENT)'' else [])
               @ '':\<newline>'' @ text)
            (cells_v10 state))"

text \<open>
  \<open>_try_parse_state\<close> and \<open>_create_fallback_state\<close> belong to the part of the class that the
  file leaves out (\<open>rest of UniversalSolver implementation\<close>). They are parameters of the
  model: \<open>try_parse response\<close> is \<open>Inr state\<close> for \<open>(True, state)\<close> and \<open>Inl issues\<close> for
  \<open>(False, issues)\<close>, with \<open>issues\<close> the text that the correction prompt is formatted with.
\<close>

type_synonym try_parse_state = "string \<Rightarrow> string + system_state_v10"
type_synonym create_fallback_state = "system_state_v10 \<Rightarrow> string \<Rightarrow> system_state_v10"

datatype iteration_v10 = Return string | Next system_state_v10

definition main_prompt_of :: "solver_config_v10 \<Rightarrow> system_state_v10 \<Rightarrow> string" where
  "main_prompt_of config state =
     main_prompt config @ ''\<newline>Current state:\<newline>'' @ format_state_v10 state"

text \<open>One turn of \<open>while True\<close> in \<open>solve\<close>, with the model calls it makes, in order.\<close>

definition solve_iteration_v10 ::
  "llm_interface \<Rightarrow> solver_config_v10 \<Rightarrow> try_parse_state \<Rightarrow> create_fallback_state
     \<Rightarrow> nat \<Rightarrow> system_state_v10 \<Rightarrow> effect list \<times> iteration_v10" where
  "solve_iteration_v10 llm config try_parse create_fallback k state =
     (let p0 = main_prompt_of config state;
          response = llm k p0
      in if contains (upper response) ''SOLVED'' then ([GetCompletion p0], Return response)
         else
           (case try_parse response of
              Inr result \<Rightarrow> ([GetCompletion p0], Next result)
            | Inl result \<Rightarrow>
                (let p1 = correction_prompt config response result;
                     correction_response = llm (k + 1) p1
                 in case try_parse correction_response of
                      Inr result' \<Rightarrow> ([GetCompletion p0, GetCompletion p1], Next result')
                    | Inl result' \<Rightarrow>
                        (let p2 = fallback_prompt config;
                             final_response = llm (k + 2) p2
                         in ([GetCompletion p0, GetCompletion p1, GetCompletion p2],
                             case try_parse final_response of
                               Inr result'' \<Rightarrow> Next result''
                             | Inl result'' \<Rightarrow> Next (create_fallback state response))))))"

partial_function (option) solve_loop_v10 ::
  "llm_interface \<Rightarrow> solver_config_v10 \<Rightarrow> try_parse_state \<Rightarrow> create_fallback_state
     \<Rightarrow> nat \<Rightarrow> system_state_v10 \<Rightarrow> string option" where
  "solve_loop_v10 llm config try_parse create_fallback k state =
     (case solve_iteration_v10 llm config try_parse create_fallback k state of
        (calls, Return response) \<Rightarrow> Some response
      | (calls, Next state') \<Rightarrow>
          solve_loop_v10 llm config try_parse create_fallback (k + length calls) state')"

definition solve_v10 ::
  "llm_interface \<Rightarrow> solver_config_v10 \<Rightarrow> try_parse_state \<Rightarrow> create_fallback_state
     \<Rightarrow> string \<Rightarrow> string option" where
  "solve_v10 llm config try_parse create_fallback query =
     solve_loop_v10 llm config try_parse create_fallback 0
       \<lparr>cells_v10 = [(''initial'', query)], current_cell_id_v10 = Some ''initial''\<rparr>"

text \<open>
  The run of the loop with recovery: \<open>state_after_v10 \<dots> j\<close> is the state at the head of the
  turn that follows \<open>j\<close> completed turns, with the number of the model call that this turn
  starts with, and \<open>None\<close> when the loop has returned before.
\<close>

fun state_after_v10 ::
  "llm_interface \<Rightarrow> solver_config_v10 \<Rightarrow> try_parse_state \<Rightarrow> create_fallback_state
     \<Rightarrow> nat \<Rightarrow> system_state_v10 \<Rightarrow> nat \<Rightarrow> (nat \<times> system_state_v10) option" where
  "state_after_v10 llm config try_parse create_fallback k state 0 = Some (k, state)"
| "state_after_v10 llm config try_parse create_fallback k state (Suc j) =
     (case solve_iteration_v10 llm config try_parse create_fallback k state of
        (calls, Next state') \<Rightarrow>
          state_after_v10 llm config try_parse create_fallback (k + length calls) state' j
      | (calls, Return response) \<Rightarrow> None)"

section \<open>The project tree (\<open>rj_copy_document_gen_langgraph_v2\<close>)\<close>

datatype project_node = ProjectNode
  (pn_id: string)
  (goal: string)
  (node_content: "(string, pyobj) dict")
  (summary: string)
  (children: "(string \<times> project_node) list")
  (parent_id: "string option")

text \<open>The dictionaries that the nodes of the graph append to \<open>history\<close>, by their \<open>type\<close> (and
  \<open>status\<close>) and with their \<open>content\<close>.\<close>

datatype history_entry =
    Analysis string
  | Generation string
  | ParsingSuccess pyobj
  | ParsingRecovered string

record system_state_lg =
  nodes :: "(string, project_node) dict"
  current_focus_id :: string
  history :: "history_entry list"

text \<open>The prompts of \<open>llm.predict\<close>, by the values their f-strings are built from; \<open>predict k p\<close>
  is the text that the \<open>k\<close>-th call returns for \<open>p\<close>.\<close>

datatype lg_prompt =
    AnalysisPrompt "(string \<times> string) list" string "(string, pyobj) dict"
  | GenerationPrompt string "(string, pyobj) dict"
  | RecoveryPrompt string
  | SummaryPrompt string "(string, pyobj) dict" "string list"

type_synonym predict = "nat \<Rightarrow> lg_prompt \<Rightarrow> string"

definition get_current_node :: "system_state_lg \<Rightarrow> py_error + project_node" where
  "get_current_node state =
     (case dict_get (nodes state) (current_focus_id state) of
        None \<Rightarrow> Inl KeyError
      | Some node \<Rightarrow> Inr node)"

text \<open>\<open>while node_id:\<close> stops at \<open>None\<close> and at the empty string.\<close>

definition truthy :: "string option \<Rightarrow> bool" where
  "truthy node_id = (case node_id of None \<Rightarrow> False | Some i \<Rightarrow> i \<noteq> [])"

text \<open>The loop of \<open>get_path_to_current\<close>; a walk that never ends has the value \<open>None\<close>.\<close>

partial_function (option) path_walk ::
  "(string, project_node) dict \<Rightarrow> string option \<Rightarrow> project_node list
     \<Rightarrow> (py_error + project_node list) option" where
  "path_walk ns node_id path =
     (if truthy node_id then
        (case dict_get ns (the node_id) of
           None \<Rightarrow> Some (Inl KeyError)
         | Some node \<Rightarrow> path_walk ns (parent_id node) (path @ [node]))
      else Some (Inr path))"

definition get_path_to_current :: "system_state_lg \<Rightarrow> (py_error + project_node list) option" where
  "get_path_to_current state =
     (case path_walk (nodes state) (Some (current_focus_id state)) [] of
        None \<Rightarrow> None
      | Some (Inl e) \<Rightarrow> Some (Inl e)
      | Some (Inr path) \<Rightarrow> Some (Inr (rev path)))"

definition analyze_current_state ::
  "predict \<Rightarrow> nat \<Rightarrow> system_state_lg \<Rightarrow> (py_error + system_state_lg) option" where
  "analyze_current_state llm k state =
     (case get_current_node state of
        Inl e \<Rightarrow> Some (Inl e)
      | Inr current \<Rightarrow>
          (case get_path_to_current state of
             None \<Rightarrow> None
           | Some (Inl e) \<Rightarrow> Some (Inl e)
           | Some (Inr path) \<Rightarrow>
               (let analysis = llm k (AnalysisPrompt (map (\<lambda>node. (goal node, summary node)) path)
                                       (goal current) (node_content current))
                in Some (Inr (state\<lparr>history := history state @ [Analysis analysis]\<rparr>)))))"

definition generate_content :: "predict \<Rightarrow> nat \<Rightarrow> system_state_lg \<Rightarrow> py_error + system_state_lg" where
  "generate_content llm k state =
     (case get_current_node state of
        Inl e \<Rightarrow> Inl e
      | Inr current \<Rightarrow>
          (let text = llm k (GenerationPrompt (goal current) (node_content current))
           in Inr (state\<lparr>history := history state @ [Generation text]\<rparr>)))"

text \<open>\<open>next((h["content"] for h in reversed(history) if h["type"] == "generation"), None)\<close>.\<close>

fun last_generation :: "history_entry list \<Rightarrow> string option" where
  "last_generation [] = None"
| "last_generation (h # hs) =
     (case last_generation hs of
        Some g \<Rightarrow> Some g
      | None \<Rightarrow> (case h of Generation g \<Rightarrow> Some g | _ \<Rightarrow> None))"

text \<open>
  \<open>_parse_content\<close>. \<open>json_loads s\<close> is the value that \<open>json.loads\<close> returns for \<open>s\<close>, or the
  exception that it raises: \<open>JSONDecodeError\<close> for a text that is no JSON document, and another
  one where the decoder fails otherwise (\<open>RecursionError\<close> on a deeply nested document,
  \<open>ValueError\<close> on an integer literal beyond the limit of the conversion). The handler is
  \<open>except json.JSONDecodeError\<close>, so that every other exception leaves the node. The result
  carries the number of model calls made.
\<close>

type_synonym json_loads_lg = "string \<Rightarrow> py_error + pyobj"

definition parse_content ::
  "predict \<Rightarrow> json_loads_lg \<Rightarrow> nat \<Rightarrow> system_state_lg \<Rightarrow> py_error + nat \<times> system_state_lg" where
  "parse_content llm json_loads k state =
     (case last_generation (history state) of
        None \<Rightarrow> Inr (k, state)
      | Some g \<Rightarrow>
          (if g = [] then Inr (k, state)
           else (case json_loads g of
                   Inr parsed \<Rightarrow>
                     Inr (k, state\<lparr>history := history state @ [ParsingSuccess parsed]\<rparr>)
                 | Inl e \<Rightarrow>
                     (if e = JSONDecodeError then
                        (let recovery = llm k (RecoveryPrompt g)
                         in Inr (Suc k, state\<lparr>history := history state @ [ParsingRecovered recovery]\<rparr>))
                      else Inl e))))"

text \<open>The start of every pass through the graph, by its edges: \<open>analyze_state\<close>, then
  \<open>generate_content\<close>, then \<open>parse_content\<close>.\<close>

definition analyze_generate_parse ::
  "predict \<Rightarrow> json_loads_lg \<Rightarrow> nat \<Rightarrow> system_state_lg
     \<Rightarrow> (py_error + nat \<times> system_state_lg) option" where
  "analyze_generate_parse llm json_loads k state =
     (case analyze_current_state llm k state of
        None \<Rightarrow> None
      | Some (Inl e) \<Rightarrow> Some (Inl e)
      | Some (Inr s1) \<Rightarrow>
          (case generate_content llm (Suc k) s1 of
             Inl e \<Rightarrow> Some (Inl e)
           | Inr s2 \<Rightarrow> Some (parse_content llm json_loads (Suc (Suc k)) s2)))"

text \<open>
  \<open>_update_structure\<close>. The content of the last parsing entry is the parsed value, or the text of
  the recovery, a Python \<open>str\<close>; \<open>if last_parsed:\<close> tests its truth value. \<open>dict_update c v\<close> is
  the dictionary that \<open>c.update(v)\<close> leaves, or the exception that it raises (for a \<open>v\<close> that is
  neither a mapping nor a sequence of pairs).
\<close>

fun last_parsing :: "history_entry list \<Rightarrow> pyobj option" where
  "last_parsing [] = None"
| "last_parsing (h # hs) =
     (case last_parsing hs of
        Some p \<Rightarrow> Some p
      | None \<Rightarrow>
          (case h of
             ParsingSuccess p \<Rightarrow> Some p
           | ParsingRecovered r \<Rightarrow> Some (PyStr r)
           | _ \<Rightarrow> None))"

fun py_truthy :: "pyobj \<Rightarrow> bool" where
  "py_truthy PyNone = False"
| "py_truthy (PyBool b) = b"
| "py_truthy (PyInt i) = (i \<noteq> 0)"
| "py_truthy (PyStr s) = (s \<noteq> [])"
| "py_truthy (PyList xs) = (xs \<noteq> [])"
| "py_truthy (PyDict kvs) = (kvs \<noteq> [])"

fun set_content :: "project_node \<Rightarrow> (string, pyobj) dict \<Rightarrow> project_node" where
  "set_content (ProjectNode i g c s ch p) c' = ProjectNode i g c' s ch p"

type_synonym dict_update = "(string, pyobj) dict \<Rightarrow> pyobj \<Rightarrow> py_error + (string, pyobj) dict"

definition update_structure :: "dict_update \<Rightarrow> system_state_lg \<Rightarrow> py_error + system_state_lg" where
  "update_structure dict_update state =
     (case last_parsing (history state) of
        None \<Rightarrow> Inr state
      | Some last_parsed \<Rightarrow>
          (if py_truthy last_parsed then
             (case get_current_node state of
                Inl e \<Rightarrow> Inl e
              | Inr current \<Rightarrow>
                  (case dict_update (node_content current) last_parsed of
                     Inl e \<Rightarrow> Inl e
                   | Inr c \<Rightarrow>
                       Inr (state\<lparr>nodes := dict_set (nodes state) (current_focus_id state)
                                                (set_content current c)\<rparr>)))
           else Inr state))"

text \<open>The loop of \<open>_propagate_summaries\<close>, from \<open>current.parent_id\<close> upwards.\<close>

fun set_summary :: "project_node \<Rightarrow> string \<Rightarrow> project_node" where
  "set_summary (ProjectNode i g c s ch p) s' = ProjectNode i g c s' ch p"

partial_function (option) propagate_walk ::
  "predict \<Rightarrow> nat \<Rightarrow> (string, project_node) dict \<Rightarrow> string option
     \<Rightarrow> (py_error + nat \<times> (string, project_node) dict) option" where
  "propagate_walk llm k ns node_id =
     (if truthy node_id then
        (case dict_get ns (the node_id) of
           None \<Rightarrow> Some (Inl KeyError)
         | Some parent \<Rightarrow>
             (let parent_summary =
                    llm k (SummaryPrompt (goal parent) (node_content parent)
                             (map (\<lambda>(i, c). summary c) (children parent)))
              in propagate_walk llm (Suc k)
                   (dict_set ns (the node_id) (set_summary parent parent_summary))
                   (parent_id parent)))
      else Some (Inr (k, ns)))"

definition propagate_summaries ::
  "predict \<Rightarrow> nat \<Rightarrow> system_state_lg \<Rightarrow> (py_error + nat \<times> system_state_lg) option" where
  "propagate_summaries llm k state =
     (case get_current_node state of
        Inl e \<Rightarrow> Some (Inl e)
      | Inr current \<Rightarrow>
          (let s = llm k (SummaryPrompt (goal current) (node_content current)
                            (map (\<lambda>(i, c). summary c) (children current)));
               ns = dict_set (nodes state) (current_focus_id state) (set_summary current s)
           in (case propagate_walk llm (Suc k) ns (parent_id current) of
                 None \<Rightarrow> None
               | Some (Inl e) \<Rightarrow> Some (Inl e)
               | Some (Inr (k', ns')) \<Rightarrow> Some (Inr (k', state\<lparr>nodes := ns'\<rparr>)))))"

text \<open>The parent chain: \<open>ancestor ns j node_id\<close> is the value of \<open>node_id\<close> after \<open>j\<close> turns of the
  walk that starts at \<open>node_id\<close>, and \<open>None\<close> once the walk has stopped or has met a missing
  key.\<close>

definition parent_of :: "(string, project_node) dict \<Rightarrow> string option \<Rightarrow> string option" where
  "parent_of ns node_id =
     (if truthy node_id then
        (case dict_get ns (the node_id) of
           None \<Rightarrow> None
         | Some node \<Rightarrow> (if truthy (parent_id node) then parent_id node else None))
      else None)"

fun ancestor :: "(string, project_node) dict \<Rightarrow> nat \<Rightarrow> string option \<Rightarrow> string option" where
  "ancestor ns 0 node_id = (if truthy node_id then node_id else None)"
| "ancestor ns (Suc j) node_id = ancestor ns j (parent_of ns node_id)"

text \<open>The chain from \<open>start\<close> reaches a node that is its own ancestor.\<close>

definition cyclic_chain :: "(string, project_node) dict \<Rightarrow> string \<Rightarrow> bool" where
  "cyclic_chain ns start =
     (\<exists>i j c. ancestor ns i (Some start) = Some c \<and> ancestor ns (Suc j) (Some c) = Some c)"

definition create_project :: "string \<Rightarrow> system_state_lg" where
  "create_project g =
     \<lparr>nodes = [(''root'', ProjectNode ''root'' g [] [] [] None)],
      current_focus_id = ''root'', history = []\<rparr>"

section \<open>The task-aware parser (\<open>Final code functional including other libraries capabilities\<close>)\<close>

datatype task_status = PENDING | IN_PROGRESS | COMPLETED | BLOCKED

record task =
  description :: string
  priority :: int
  status :: task_status
  dependencies :: "string list"
  created_at :: string

datatype tool_call = ToolCall string "(string, pyobj) dict"

text \<open>\<open>CellContent\<close>: \<open>content: Union[str, ToolCall, Task]\<close> and \<open>result: Optional[str]\<close>.\<close>

datatype content_value = Text string | Tool tool_call | TaskValue task

record cell_content =
  content_value :: content_value
  result :: "string option"


text \<open>
  The library calls of the \<open>TASK:\<close> branch are parameters. \<open>json_loads s\<close> is the parsed value,
  or \<open>Inl m\<close> where \<open>json.loads(s)\<close> raises an exception \<open>e\<close> with \<open>str(e) = m\<close>.
  \<open>make_task args\<close> stands for the three statements after the assignment of \<open>cell_id\<close> (the
  \<open>create_task\<close> tool, \<open>json.loads(result)["task"]\<close> and \<open>Task(**task_dict)\<close>): the result text
  and the task, or \<open>Inl m\<close> where one of them raises an exception \<open>e\<close> with \<open>str(e) = m\<close>.
\<close>

type_synonym json_loads = "string \<Rightarrow> string + pyobj"









section \<open>Objects and addresses\<close>














text \<open>An identifier source for the examples: \<open>a\<close> first, then \<open>b\<close>.\<close>

definition uuid4_ab :: uuid_source where
  "uuid4_ab n = (if n = 0 then ''a'' else ''b'')"

text \<open>A project whose two nodes are each other's parent.\<close>

definition cyclic_project :: system_state_lg where
  "cyclic_project =
     \<lparr>nodes = [(''a'', ProjectNode ''a'' ''first'' [] [] [] (Some ''b'')),
               (''b'', ProjectNode ''b'' ''second'' [] [] [] (Some ''a''))],
      current_focus_id = ''a'', history = []\<rparr>"


text \<open>Stand-ins for the library in the examples of the project tree: a \<open>json.loads\<close> that
  parses the empty object and raises \<open>JSONDecodeError\<close> on every other text, and a
  \<open>dict.update\<close> that merges a dictionary, raises \<open>ValueError\<close> on a text that is not empty (its
  elements are no pairs) and \<open>TypeError\<close> on a value that cannot be iterated.\<close>

definition json_loads_lg_example :: json_loads_lg where
  "json_loads_lg_example s = (if s = ''{}'' then Inr (PyDict []) else Inl JSONDecodeError)"

definition dict_update_example :: dict_update where
  "dict_update_example c v =
     (case v of
        PyDict kvs \<Rightarrow> Inr (fold (\<lambda>(key, value) d. dict_set d key value) kvs c)
      | PyStr s \<Rightarrow> (if s = [] then Inr c else Inl ValueError)
      | PyList xs \<Rightarrow> (if xs = [] then Inr c else Inl TypeError)
      | PyNone \<Rightarrow> Inl TypeError
      | PyBool b \<Rightarrow> Inl TypeError
      | PyInt i \<Rightarrow> Inl TypeError)"




section \<open>Facts about strings and dictionaries\<close>

lemmas str_defs =
  strip_def lstrip_def rstrip_def is_space_def startswith_def index_def split_max1_def
  split_ws_def dict_get_def dict_has_def contains_def

lemma dict_get_None: "\<not> dict_has d k \<Longrightarrow> dict_get d k = None"
  by (simp add: dict_get_def dict_has_def map_of_eq_None_iff)

lemma dict_set_new: "\<not> dict_has d k \<Longrightarrow> dict_set d k v = d @ [(k, v)]"
  by (induction d k v rule: dict_set.induct) (auto simp: dict_has_def)

lemma dict_get_dict_set:
  "dict_get (dict_set d k v) k' = (if k' = k then Some v else dict_get d k')"
  by (induction d k v rule: dict_set.induct) (auto simp: dict_get_def)

lemma new_cell_text:
  assumes "startswith change ''- NEW CELL:''"
  shows "index (split_max1 change '':'') (Suc 0) = Inr (drop 11 change)"
proof -
  define r where "r = drop 11 change"
  have len: "length ''- NEW CELL:'' = 11" by simp
  from assms have "take (length ''- NEW CELL:'') change = ''- NEW CELL:''"
    by (simp only: startswith_def)
  then have "''- NEW CELL:'' @ drop (length ''- NEW CELL:'') change = change"
    by (metis append_take_drop_id)
  then have c: "''- NEW CELL:'' @ r = change"
    unfolding len r_def .
  have "find_sub '':'' (''- NEW CELL:'' @ r) = Some (''- NEW CELL'', r)"
    by (simp add: startswith_def)
  then have "index (split_max1 (''- NEW CELL:'' @ r) '':'') (Suc 0) = Inr r"
    by (simp add: split_max1_def index_def)
  then have "index (split_max1 change '':'') (Suc 0) = Inr r"
    by (simp only: c)
  then show ?thesis by (simp only: r_def)
qed

section \<open>The cell solver: applying changes\<close>

lemma apply_change_missing:
  "names_missing_cell state change \<Longrightarrow> apply_change uuid4 (n, state) change = Inr (n, state)"
  unfolding names_missing_cell_def apply_change_def
  by (auto simp: dict_get_None split: sum.splits if_splits)

lemma apply_changes_loop_append:
  "apply_changes_loop uuid4 ns (xs @ ys) =
     (case apply_changes_loop uuid4 ns xs of
        Inl e \<Rightarrow> Inl e
      | Inr ns' \<Rightarrow> apply_changes_loop uuid4 ns' ys)"
  by (induction xs arbitrary: ns) (auto split: sum.splits)

lemma apply_change_new_cell:
  assumes "startswith change ''- NEW CELL:''" and "\<not> dict_has (cells state) (uuid4 n)"
  shows "apply_change uuid4 (n, state) change =
           Inr (Suc n, state\<lparr>cells := cells state @
                  [(uuid4 n, \<lparr>cell_id = uuid4 n, content = strip (drop 11 change),
                              references = [], metadata = []\<rparr>)]\<rparr>)"
  using assms by (simp add: apply_change_def new_cell_text dict_set_new Let_def)

text \<open>
  C1. Applying a batch is not atomic: a change that names a cell that does not exist is
  skipped on its own, and the batch has the result of the batch without it, so the other
  changes are still applied.
\<close>

theorem apply_changes_skips_missing_cell:
  assumes "apply_changes_loop uuid4 ns before = Inr (n', state')"
    and "names_missing_cell state' change"
  shows "apply_changes_loop uuid4 ns (before @ change # after) =
           apply_changes_loop uuid4 ns (before @ after)"
  using assms by (simp add: apply_changes_loop_append apply_change_missing)

theorem apply_changes_skips_missing_cell_witness:
  "apply_changes_loop (\<lambda>n. ''u'') (0, initial_state ''q'') [''- NEW CELL: x''] =
     Inr (1, (initial_state ''q'')\<lparr>cells := cells (initial_state ''q'') @
               [(''u'', \<lparr>cell_id = ''u'', content = ''x'', references = [], metadata = []\<rparr>)]\<rparr>) \<and>
   names_missing_cell
     ((initial_state ''q'')\<lparr>cells := cells (initial_state ''q'') @
               [(''u'', \<lparr>cell_id = ''u'', content = ''x'', references = [], metadata = []\<rparr>)]\<rparr>)
     ''SET CURRENT: nope'' \<and>
   apply_changes_loop (\<lambda>n. ''u'') (0, initial_state ''q'')
       ([''- NEW CELL: x''] @ ''SET CURRENT: nope'' # [''- MODIFY CELL u : y'']) =
     apply_changes_loop (\<lambda>n. ''u'') (0, initial_state ''q'')
       ([''- NEW CELL: x''] @ [''- MODIFY CELL u : y''])"
proof -
  have h1: "apply_changes_loop (\<lambda>n. ''u'') (0, initial_state ''q'') [''- NEW CELL: x''] =
     Inr (1, (initial_state ''q'')\<lparr>cells := cells (initial_state ''q'') @
               [(''u'', \<lparr>cell_id = ''u'', content = ''x'', references = [], metadata = []\<rparr>)]\<rparr>)"
    by (simp add: apply_change_def initial_state_def str_defs Let_def)
  have h2: "names_missing_cell
     ((initial_state ''q'')\<lparr>cells := cells (initial_state ''q'') @
               [(''u'', \<lparr>cell_id = ''u'', content = ''x'', references = [], metadata = []\<rparr>)]\<rparr>)
     ''SET CURRENT: nope''"
    by (simp add: names_missing_cell_def initial_state_def str_defs)
  show ?thesis
    by (intro conjI, rule h1, rule h2, rule apply_changes_skips_missing_cell[OF h1 h2])
qed

theorem apply_changes_atomic_counterexample:
  "names_missing_cell (initial_state ''q'') ''SET CURRENT: nope'' \<and>
   apply_changes (\<lambda>n. ''u'') 0 (initial_state ''q'') ''- NEW CELL: x\<newline>SET CURRENT: nope'' =
     Inr (1, \<lparr>cells =
               [(''initial'', \<lparr>cell_id = ''initial'', content = ''q'', references = [], metadata = []\<rparr>),
                (''u'', \<lparr>cell_id = ''u'', content = ''x'', references = [], metadata = []\<rparr>)],
              current_cell_id = Some ''initial'', state_metadata = []\<rparr>) \<and>
   initial_state ''q'' =
     \<lparr>cells =
        [(''initial'', \<lparr>cell_id = ''initial'', content = ''q'', references = [], metadata = []\<rparr>)],
      current_cell_id = Some ''initial'', state_metadata = []\<rparr>"
  by code_simp

text \<open>
  C3. There is no naming policy: a \<open>NEW CELL\<close> change is never rejected. Each one adds a cell
  under the identifier drawn from \<open>uuid4\<close>, whatever its text, so two of them add two cells.
\<close>

theorem new_cell_changes_add_two_cells:
  assumes "startswith c1 ''- NEW CELL:''" and "startswith c2 ''- NEW CELL:''"
    and "\<not> dict_has (cells state) (uuid4 n)" and "\<not> dict_has (cells state) (uuid4 (Suc n))"
    and "uuid4 n \<noteq> uuid4 (Suc n)"
  shows "apply_changes_loop uuid4 (n, state) [c1, c2] =
           Inr (Suc (Suc n), state\<lparr>cells := cells state @
                  [(uuid4 n, \<lparr>cell_id = uuid4 n, content = strip (drop 11 c1),
                              references = [], metadata = []\<rparr>),
                   (uuid4 (Suc n), \<lparr>cell_id = uuid4 (Suc n), content = strip (drop 11 c2),
                              references = [], metadata = []\<rparr>)]\<rparr>)"
proof -
  let ?s1 = "state\<lparr>cells := cells state @
                  [(uuid4 n, \<lparr>cell_id = uuid4 n, content = strip (drop 11 c1),
                              references = [], metadata = []\<rparr>)]\<rparr>"
  have one: "apply_change uuid4 (n, state) c1 = Inr (Suc n, ?s1)"
    using assms(1,3) by (rule apply_change_new_cell)
  have "\<not> dict_has (cells ?s1) (uuid4 (Suc n))"
    using assms(4,5) by (auto simp: dict_has_def)
  from apply_change_new_cell[of c2 _ uuid4 "Suc n", OF assms(2) this]
  have two: "apply_change uuid4 (Suc n, ?s1) c2 =
     Inr (Suc (Suc n), ?s1\<lparr>cells := cells ?s1 @
            [(uuid4 (Suc n), \<lparr>cell_id = uuid4 (Suc n), content = strip (drop 11 c2),
                               references = [], metadata = []\<rparr>)]\<rparr>)" .
  show ?thesis by (simp add: one two)
qed

theorem new_cell_changes_add_two_cells_witness:
  "startswith ''- NEW CELL: Plan'' ''- NEW CELL:'' \<and> startswith ''- NEW CELL: plan'' ''- NEW CELL:'' \<and>
   \<not> dict_has (cells (initial_state ''q'')) (uuid4_ab 0) \<and>
   \<not> dict_has (cells (initial_state ''q'')) (uuid4_ab (Suc 0)) \<and>
   uuid4_ab 0 \<noteq> uuid4_ab (Suc 0) \<and>
   apply_changes_loop uuid4_ab (0, initial_state ''q'')
       [''- NEW CELL: Plan'', ''- NEW CELL: plan''] =
     Inr (Suc (Suc 0), (initial_state ''q'')\<lparr>cells := cells (initial_state ''q'') @
            [(uuid4_ab 0,
              \<lparr>cell_id = uuid4_ab 0, content = strip (drop 11 ''- NEW CELL: Plan''),
                 references = [], metadata = []\<rparr>),
             (uuid4_ab (Suc 0),
              \<lparr>cell_id = uuid4_ab (Suc 0), content = strip (drop 11 ''- NEW CELL: plan''),
                 references = [], metadata = []\<rparr>)]\<rparr>)"
proof -
  have a1: "startswith ''- NEW CELL: Plan'' ''- NEW CELL:''" by (simp add: startswith_def)
  have a2: "startswith ''- NEW CELL: plan'' ''- NEW CELL:''" by (simp add: startswith_def)
  have a3: "\<not> dict_has (cells (initial_state ''q'')) (uuid4_ab 0)"
    by (simp add: dict_has_def initial_state_def uuid4_ab_def)
  have a4: "\<not> dict_has (cells (initial_state ''q'')) (uuid4_ab (Suc 0))"
    by (simp add: dict_has_def initial_state_def uuid4_ab_def)
  have a5: "uuid4_ab 0 \<noteq> uuid4_ab (Suc 0)" by (simp add: uuid4_ab_def)
  show ?thesis
    by (intro conjI, rule a1, rule a2, rule a3, rule a4, rule a5,
        rule new_cell_changes_add_two_cells[OF a1 a2 a3 a4 a5])
qed

theorem normalized_names_counterexample:
  "apply_changes uuid4_ab 0 (initial_state ''q'')
       ''- NEW CELL: Initial Analysis Plan\<newline>- NEW CELL: Initial_Analysis_Plan'' =
     Inr (2, \<lparr>cells =
               [(''initial'', \<lparr>cell_id = ''initial'', content = ''q'', references = [], metadata = []\<rparr>),
                (''a'', \<lparr>cell_id = ''a'', content = ''Initial Analysis Plan'',
                         references = [], metadata = []\<rparr>),
                (''b'', \<lparr>cell_id = ''b'', content = ''Initial_Analysis_Plan'',
                         references = [], metadata = []\<rparr>)],
              current_cell_id = Some ''initial'', state_metadata = []\<rparr>)"
  by code_simp


section \<open>The solving loops\<close>

lemma solve_loop_solved:
  assumes "contains (llm k (iteration_prompt config state)) ''STATUS: SOLVED''"
  shows "solve_loop llm uuid4 config k n state = Some (Inr (get_solution llm config (Suc k) state))"
  using assms by (subst solve_loop.simps) (simp add: solve_iteration_def)

lemma solve_loop_silent_model:
  "solve_loop (\<lambda>k p. []) uuid4 config k n state = None"
proof -
  have "solve_loop llm uuid4 config k n state = Some r \<Longrightarrow> llm \<noteq> (\<lambda>k p. [])" for llm r
  proof (erule solve_loop.raw_induct[rotated])
    fix f llm uuid4 config k n state r
    assume IH: "\<And>llm uuid4 config k n state y. f llm uuid4 config k n state = Some y \<Longrightarrow>
        llm \<noteq> (\<lambda>k p. [])"
      and "(case snd (solve_iteration llm uuid4 config k n state) of
          Break \<Rightarrow> Some (Inr (get_solution llm config (Suc k) state))
        | Continue n' state' \<Rightarrow> f llm uuid4 config (Suc k) n' state'
        | Raise e \<Rightarrow> Some (Inl e)) = Some r"
    then show "llm \<noteq> (\<lambda>k p. [])"
      by (auto simp: solve_iteration_def Let_def apply_changes_def changes_of_def str_defs
            split: iteration.splits sum.splits)
  qed
  then show ?thesis by (cases "solve_loop (\<lambda>k p. []) uuid4 config k n state") auto
qed

lemma solve_loop_v10_returns:
  assumes "solve_loop_v10 llm config try_parse create_fallback k state = Some r"
  shows "\<exists>k' p. contains (upper (llm k' p)) ''SOLVED''"
  using assms
proof (rule solve_loop_v10.raw_induct[rotated])
  fix f llm config try_parse create_fallback k state r
  assume IH: "\<And>llm config try_parse create_fallback k state y.
        f llm config try_parse create_fallback k state = Some y \<Longrightarrow>
        \<exists>k' p. contains (upper (llm k' p)) ''SOLVED''"
    and step: "(case solve_iteration_v10 llm config try_parse create_fallback k state of
        (calls, Return response) \<Rightarrow> Some response
      | (calls, Next state') \<Rightarrow> f llm config try_parse create_fallback (k + length calls) state')
      = Some r"
  obtain calls out where it: "solve_iteration_v10 llm config try_parse create_fallback k state = (calls, out)"
    by (cases "solve_iteration_v10 llm config try_parse create_fallback k state")
  show "\<exists>k' p. contains (upper (llm k' p)) ''SOLVED''"
  proof (cases out)
    case (Return response)
    with it have "contains (upper (llm k (main_prompt_of config state))) ''SOLVED''"
      by (auto simp: solve_iteration_v10_def Let_def split: if_splits sum.splits)
    then show ?thesis by blast
  next
    case (Next state')
    with step it IH show ?thesis by simp
  qed
qed

lemma solve_loop_v10_solved:
  assumes "contains (upper (llm k (main_prompt_of config state))) ''SOLVED''"
  shows "solve_loop_v10 llm config try_parse create_fallback k state =
           Some (llm k (main_prompt_of config state))"
  using assms by (subst solve_loop_v10.simps) (simp add: solve_iteration_v10_def Let_def)

lemma solve_loop_v10_silent_model:
  "solve_loop_v10 (\<lambda>k p. []) config try_parse create_fallback k state = None"
proof (cases "solve_loop_v10 (\<lambda>k p. []) config try_parse create_fallback k state")
  case None
  then show ?thesis .
next
  case (Some r)
  from solve_loop_v10_returns[OF this] have "contains (upper []) ''SOLVED''" by simp
  then show ?thesis by (simp add: contains_def upper_def startswith_def)
qed

lemma solve_iteration_Break_iff:
  "snd (solve_iteration llm uuid4 config k n state) = Break
     \<longleftrightarrow> contains (llm k (iteration_prompt config state)) ''STATUS: SOLVED''"
  by (auto simp: solve_iteration_def Let_def split: if_splits sum.splits)

lemma solve_iteration_Raise_iff:
  "snd (solve_iteration llm uuid4 config k n state) = Raise e
     \<longleftrightarrow> \<not> contains (llm k (iteration_prompt config state)) ''STATUS: SOLVED'' \<and>
         apply_changes uuid4 n state (llm k (iteration_prompt config state)) = Inl e"
  by (auto simp: solve_iteration_def Let_def split: if_splits sum.splits)

lemma apply_changes_modify_without_colon:
  "apply_changes uuid4 n state ''- MODIFY CELL initial'' = Inl IndexError"
proof -
  have c: "changes_of ''- MODIFY CELL initial'' = [''- MODIFY CELL initial'']"
    by code_simp
  have a: "apply_change uuid4 (n, state) ''- MODIFY CELL initial'' = Inl IndexError"
    by (simp add: apply_change_def str_defs)
  show ?thesis by (simp add: apply_changes_def c a)
qed

lemma state_after_Suc:
  "state_after llm uuid4 config k n state (Suc j) =
     (case state_after llm uuid4 config k n state j of
        None \<Rightarrow> None
      | Some (n', st) \<Rightarrow>
          (case snd (solve_iteration llm uuid4 config (k + j) n' st) of
             Continue n'' st'' \<Rightarrow> Some (n'', st'')
           | Break \<Rightarrow> None
           | Raise e \<Rightarrow> None))"
proof (induction j arbitrary: k n state)
  case 0
  show ?case by (simp split: iteration.splits)
next
  case (Suc j)
  show ?case
  proof (cases "snd (solve_iteration llm uuid4 config k n state)")
    case (Continue n1 st1)
    have e1: "state_after llm uuid4 config k n state (Suc (Suc j)) =
          state_after llm uuid4 config (Suc k) n1 st1 (Suc j)"
      using Continue by (subst state_after.simps) simp
    have e2: "state_after llm uuid4 config k n state (Suc j) =
          state_after llm uuid4 config (Suc k) n1 st1 j"
      using Continue by simp
    show ?thesis
      using Suc.IH[of "Suc k" n1 st1] by (simp only: e1 e2 add_Suc_shift)
  next
    case Break
    then show ?thesis by simp
  next
    case (Raise e)
    then show ?thesis by simp
  qed
qed

lemma solve_loop_run:
  assumes "solve_loop llm uuid4 config k n state = Some r"
  shows "\<exists>j n' st. state_after llm uuid4 config k n state j = Some (n', st) \<and>
           (case r of
              Inr a \<Rightarrow> snd (solve_iteration llm uuid4 config (k + j) n' st) = Break \<and>
                       a = get_solution llm config (Suc (k + j)) st
            | Inl e \<Rightarrow> snd (solve_iteration llm uuid4 config (k + j) n' st) = Raise e)"
  using assms
proof (rule solve_loop.raw_induct[rotated])
  fix f llm uuid4 config k n state r
  assume IH: "\<And>llm uuid4 config k n state y. f llm uuid4 config k n state = Some y \<Longrightarrow>
      \<exists>j n' st. state_after llm uuid4 config k n state j = Some (n', st) \<and>
           (case y of
              Inr a \<Rightarrow> snd (solve_iteration llm uuid4 config (k + j) n' st) = Break \<and>
                       a = get_solution llm config (Suc (k + j)) st
            | Inl e \<Rightarrow> snd (solve_iteration llm uuid4 config (k + j) n' st) = Raise e)"
    and step: "(case snd (solve_iteration llm uuid4 config k n state) of
        Break \<Rightarrow> Some (Inr (get_solution llm config (Suc k) state))
      | Continue n' state' \<Rightarrow> f llm uuid4 config (Suc k) n' state'
      | Raise e \<Rightarrow> Some (Inl e)) = Some r"
  let ?goal = "\<exists>j n' st. state_after llm uuid4 config k n state j = Some (n', st) \<and>
           (case r of
              Inr a \<Rightarrow> snd (solve_iteration llm uuid4 config (k + j) n' st) = Break \<and>
                       a = get_solution llm config (Suc (k + j)) st
            | Inl e \<Rightarrow> snd (solve_iteration llm uuid4 config (k + j) n' st) = Raise e)"
  show ?goal
  proof (cases "snd (solve_iteration llm uuid4 config k n state)")
    case Break
    with step have r: "r = Inr (get_solution llm config (Suc k) state)" by simp
    have "state_after llm uuid4 config k n state 0 = Some (n, state)" by simp
    with Break r show ?thesis
      by (intro exI[of _ 0] exI[of _ n] exI[of _ state]) simp
  next
    case (Raise e)
    with step have r: "r = Inl e" by simp
    with Raise show ?thesis
      by (intro exI[of _ 0] exI[of _ n] exI[of _ state]) simp
  next
    case (Continue n1 st1)
    with step have "f llm uuid4 config (Suc k) n1 st1 = Some r" by simp
    from IH[OF this] obtain j n' st where
      a: "state_after llm uuid4 config (Suc k) n1 st1 j = Some (n', st)" and
      b: "(case r of
              Inr a \<Rightarrow> snd (solve_iteration llm uuid4 config (Suc k + j) n' st) = Break \<and>
                       a = get_solution llm config (Suc (Suc k + j)) st
            | Inl e \<Rightarrow> snd (solve_iteration llm uuid4 config (Suc k + j) n' st) = Raise e)"
      by blast
    from a Continue have "state_after llm uuid4 config k n state (Suc j) = Some (n', st)" by simp
    moreover from b have "(case r of
              Inr a \<Rightarrow> snd (solve_iteration llm uuid4 config (k + Suc j) n' st) = Break \<and>
                       a = get_solution llm config (Suc (k + Suc j)) st
            | Inl e \<Rightarrow> snd (solve_iteration llm uuid4 config (k + Suc j) n' st) = Raise e)"
      by (simp only: add_Suc_shift)
    ultimately show ?thesis by blast
  qed
qed

lemma state_after_break:
  "state_after llm uuid4 config k n state j = Some (n', st) \<Longrightarrow>
   snd (solve_iteration llm uuid4 config (k + j) n' st) = Break \<Longrightarrow>
   solve_loop llm uuid4 config k n state = Some (Inr (get_solution llm config (Suc (k + j)) st))"
proof (induction j arbitrary: k n state)
  case 0
  then show ?case by (subst solve_loop.simps) simp
next
  case (Suc j)
  from Suc.prems(1) obtain n1 st1 where
    c: "snd (solve_iteration llm uuid4 config k n state) = Continue n1 st1"
    by (cases "snd (solve_iteration llm uuid4 config k n state)") simp_all
  with Suc.prems have "state_after llm uuid4 config (Suc k) n1 st1 j = Some (n', st)"
    and "snd (solve_iteration llm uuid4 config (Suc k + j) n' st) = Break"
    by simp_all
  from Suc.IH[OF this] c show ?case by (subst solve_loop.simps) simp
qed

lemma state_after_raise:
  "state_after llm uuid4 config k n state j = Some (n', st) \<Longrightarrow>
   snd (solve_iteration llm uuid4 config (k + j) n' st) = Raise e \<Longrightarrow>
   solve_loop llm uuid4 config k n state = Some (Inl e)"
proof (induction j arbitrary: k n state)
  case 0
  then show ?case by (subst solve_loop.simps) simp
next
  case (Suc j)
  from Suc.prems(1) obtain n1 st1 where
    c: "snd (solve_iteration llm uuid4 config k n state) = Continue n1 st1"
    by (cases "snd (solve_iteration llm uuid4 config k n state)") simp_all
  with Suc.prems have "state_after llm uuid4 config (Suc k) n1 st1 j = Some (n', st)"
    and "snd (solve_iteration llm uuid4 config (Suc k + j) n' st) = Raise e"
    by simp_all
  from Suc.IH[OF this] c show ?case by (subst solve_loop.simps) simp
qed

lemma solve_loop_None_iff:
  "solve_loop llm uuid4 config k n state = None
     \<longleftrightarrow> (\<forall>j. state_after llm uuid4 config k n state j \<noteq> None)"
proof
  assume none: "solve_loop llm uuid4 config k n state = None"
  show "\<forall>j. state_after llm uuid4 config k n state j \<noteq> None"
  proof
    fix j
    show "state_after llm uuid4 config k n state j \<noteq> None"
    proof (induction j)
      case 0
      show ?case by simp
    next
      case (Suc j)
      then obtain n' st where a: "state_after llm uuid4 config k n state j = Some (n', st)"
        by auto
      show ?case
      proof (cases "snd (solve_iteration llm uuid4 config (k + j) n' st)")
        case Break
        from state_after_break[OF a Break] none show ?thesis by simp
      next
        case (Raise e)
        from state_after_raise[OF a Raise] none show ?thesis by simp
      next
        case (Continue n2 st2)
        with a show ?thesis by (subst state_after_Suc) simp
      qed
    qed
  qed
next
  assume all: "\<forall>j. state_after llm uuid4 config k n state j \<noteq> None"
  show "solve_loop llm uuid4 config k n state = None"
  proof (cases "solve_loop llm uuid4 config k n state")
    case None
    then show ?thesis .
  next
    case (Some r)
    from solve_loop_run[OF Some] obtain j n' st where
      a: "state_after llm uuid4 config k n state j = Some (n', st)" and
      b: "(case r of
              Inr a \<Rightarrow> snd (solve_iteration llm uuid4 config (k + j) n' st) = Break \<and>
                       a = get_solution llm config (Suc (k + j)) st
            | Inl e \<Rightarrow> snd (solve_iteration llm uuid4 config (k + j) n' st) = Raise e)"
      by blast
    from a b have "state_after llm uuid4 config k n state (Suc j) = None"
      by (cases r) (simp_all only: state_after_Suc option.case prod.case iteration.case sum.case)
    with all show ?thesis by blast
  qed
qed


lemma solve_iteration_v10_Return_iff:
  "snd (solve_iteration_v10 llm config try_parse create_fallback k state) = Return r
     \<longleftrightarrow> contains (upper (llm k (main_prompt_of config state))) ''SOLVED'' \<and>
         r = llm k (main_prompt_of config state)"
  by (auto simp: solve_iteration_v10_def Let_def split: if_splits sum.splits)

lemma solve_loop_v10_run:
  assumes "solve_loop_v10 llm config try_parse create_fallback k state = Some r"
  shows "\<exists>j k' st. state_after_v10 llm config try_parse create_fallback k state j = Some (k', st) \<and>
           contains (upper (llm k' (main_prompt_of config st))) ''SOLVED'' \<and>
           r = llm k' (main_prompt_of config st) \<and>
           state_after_v10 llm config try_parse create_fallback k state (Suc j) = None"
  using assms
proof (rule solve_loop_v10.raw_induct[rotated])
  fix f llm config try_parse create_fallback k state r
  assume IH: "\<And>llm config try_parse create_fallback k state y.
        f llm config try_parse create_fallback k state = Some y \<Longrightarrow>
        \<exists>j k' st. state_after_v10 llm config try_parse create_fallback k state j = Some (k', st) \<and>
           contains (upper (llm k' (main_prompt_of config st))) ''SOLVED'' \<and>
           y = llm k' (main_prompt_of config st) \<and>
           state_after_v10 llm config try_parse create_fallback k state (Suc j) = None"
    and step: "(case solve_iteration_v10 llm config try_parse create_fallback k state of
        (calls, Return response) \<Rightarrow> Some response
      | (calls, Next state') \<Rightarrow> f llm config try_parse create_fallback (k + length calls) state')
      = Some r"
  obtain calls out where
    it: "solve_iteration_v10 llm config try_parse create_fallback k state = (calls, out)"
    by (cases "solve_iteration_v10 llm config try_parse create_fallback k state")
  show "\<exists>j k' st. state_after_v10 llm config try_parse create_fallback k state j = Some (k', st) \<and>
           contains (upper (llm k' (main_prompt_of config st))) ''SOLVED'' \<and>
           r = llm k' (main_prompt_of config st) \<and>
           state_after_v10 llm config try_parse create_fallback k state (Suc j) = None"
  proof (cases out)
    case (Return response)
    with it step have r: "r = response" by simp
    from it Return have
      "snd (solve_iteration_v10 llm config try_parse create_fallback k state) = Return response"
      by simp
    then have "contains (upper (llm k (main_prompt_of config state))) ''SOLVED''"
      and "response = llm k (main_prompt_of config state)"
      by (simp_all add: solve_iteration_v10_Return_iff)
    moreover have "state_after_v10 llm config try_parse create_fallback k state 0 = Some (k, state)"
      by simp
    moreover have "state_after_v10 llm config try_parse create_fallback k state (Suc 0) = None"
      using it Return by simp
    ultimately show ?thesis using r by blast
  next
    case (Next state')
    with step it have "f llm config try_parse create_fallback (k + length calls) state' = Some r"
      by simp
    from IH[OF this] obtain j k' st where
      a: "state_after_v10 llm config try_parse create_fallback (k + length calls) state' j =
            Some (k', st)" and
      b: "contains (upper (llm k' (main_prompt_of config st))) ''SOLVED''" and
      c: "r = llm k' (main_prompt_of config st)" and
      d: "state_after_v10 llm config try_parse create_fallback (k + length calls) state' (Suc j) = None"
      by blast
    from a it Next have
      "state_after_v10 llm config try_parse create_fallback k state (Suc j) = Some (k', st)"
      by simp
    moreover from d it Next have
      "state_after_v10 llm config try_parse create_fallback k state (Suc (Suc j)) = None"
      by (subst state_after_v10.simps) simp
    ultimately show ?thesis using b c by blast
  qed
qed

lemma state_after_v10_return:
  "state_after_v10 llm config try_parse create_fallback k state j = Some (k', st) \<Longrightarrow>
   contains (upper (llm k' (main_prompt_of config st))) ''SOLVED'' \<Longrightarrow>
   solve_loop_v10 llm config try_parse create_fallback k state =
     Some (llm k' (main_prompt_of config st))"
proof (induction j arbitrary: k state)
  case 0
  then show ?case
    by (subst solve_loop_v10.simps) (simp add: solve_iteration_v10_def Let_def)
next
  case (Suc j)
  obtain calls out where
    it: "solve_iteration_v10 llm config try_parse create_fallback k state = (calls, out)"
    by (cases "solve_iteration_v10 llm config try_parse create_fallback k state")
  from Suc.prems(1) it obtain state' where out: "out = Next state'"
    by (cases out) simp_all
  with Suc.prems(1) it have
    "state_after_v10 llm config try_parse create_fallback (k + length calls) state' j = Some (k', st)"
    by simp
  from Suc.IH[OF this Suc.prems(2)] it out show ?case
    by (subst solve_loop_v10.simps) simp
qed

lemma state_after_v10_None:
  "state_after_v10 llm config try_parse create_fallback k state j = None \<Longrightarrow>
   solve_loop_v10 llm config try_parse create_fallback k state \<noteq> None"
proof (induction j arbitrary: k state)
  case 0
  then show ?case by simp
next
  case (Suc j)
  obtain calls out where
    it: "solve_iteration_v10 llm config try_parse create_fallback k state = (calls, out)"
    by (cases "solve_iteration_v10 llm config try_parse create_fallback k state")
  show ?case
  proof (cases out)
    case (Return response)
    with it show ?thesis by (subst solve_loop_v10.simps) simp
  next
    case (Next state')
    with Suc.prems it have
      "state_after_v10 llm config try_parse create_fallback (k + length calls) state' j = None"
      by simp
    from Suc.IH[OF this] it Next show ?thesis by (subst solve_loop_v10.simps) simp
  qed
qed

lemma solve_loop_v10_None_iff:
  "solve_loop_v10 llm config try_parse create_fallback k state = None
     \<longleftrightarrow> (\<forall>j. state_after_v10 llm config try_parse create_fallback k state j \<noteq> None)"
proof
  assume "solve_loop_v10 llm config try_parse create_fallback k state = None"
  then show "\<forall>j. state_after_v10 llm config try_parse create_fallback k state j \<noteq> None"
    using state_after_v10_None by blast
next
  assume all: "\<forall>j. state_after_v10 llm config try_parse create_fallback k state j \<noteq> None"
  show "solve_loop_v10 llm config try_parse create_fallback k state = None"
  proof (cases "solve_loop_v10 llm config try_parse create_fallback k state")
    case None
    then show ?thesis .
  next
    case (Some r)
    from solve_loop_v10_run[OF Some] all show ?thesis by blast
  qed
qed

text \<open>
  C4. The loops have no iteration budget. \<open>solve\<close> returns an answer exactly when the
  response that the loop received at some turn of its run carries the completion marker, and
  the answer is built from the state of that turn; it never returns exactly when every turn
  of the run yields a next state; and it ends with an exception exactly when
  \<open>_apply_changes\<close> raises it on a received response that does not carry the marker. So
  against a model none of whose received responses carries the marker, \<open>solve\<close> returns no
  answer: it runs forever, or it ends with the exception that \<open>_apply_changes\<close> raises. The
  same holds of the solver with recovery, which raises nothing here: without the marker in
  a received response it runs forever.
\<close>

theorem solve_returns_only_on_marker:
  "(solve llm uuid4 config query = Some (Inr answer)
      \<longleftrightarrow> (\<exists>j n st. state_after llm uuid4 config 0 0 (initial_state query) j = Some (n, st) \<and>
             contains (llm j (iteration_prompt config st)) ''STATUS: SOLVED'' \<and>
             answer = get_solution llm config (Suc j) st)) \<and>
   (solve llm uuid4 config query = None
      \<longleftrightarrow> (\<forall>j. state_after llm uuid4 config 0 0 (initial_state query) j \<noteq> None)) \<and>
   (solve llm uuid4 config query = Some (Inl e)
      \<longleftrightarrow> (\<exists>j n st. state_after llm uuid4 config 0 0 (initial_state query) j = Some (n, st) \<and>
             \<not> contains (llm j (iteration_prompt config st)) ''STATUS: SOLVED'' \<and>
             apply_changes uuid4 n st (llm j (iteration_prompt config st)) = Inl e)) \<and>
   ((\<forall>j n st. state_after llm uuid4 config 0 0 (initial_state query) j = Some (n, st)
        \<longrightarrow> \<not> contains (llm j (iteration_prompt config st)) ''STATUS: SOLVED'')
      \<longrightarrow> solve llm uuid4 config query = None \<or>
          (\<exists>e. solve llm uuid4 config query = Some (Inl e))) \<and>
   (solve_v10 llm config10 try_parse create_fallback query = Some response
      \<longleftrightarrow> (\<exists>j k st. state_after_v10 llm config10 try_parse create_fallback 0
               \<lparr>cells_v10 = [(''initial'', query)], current_cell_id_v10 = Some ''initial''\<rparr> j =
               Some (k, st) \<and>
             contains (upper (llm k (main_prompt_of config10 st))) ''SOLVED'' \<and>
             response = llm k (main_prompt_of config10 st))) \<and>
   (solve_v10 llm config10 try_parse create_fallback query = None
      \<longleftrightarrow> (\<forall>j. state_after_v10 llm config10 try_parse create_fallback 0
               \<lparr>cells_v10 = [(''initial'', query)], current_cell_id_v10 = Some ''initial''\<rparr> j \<noteq>
               None)) \<and>
   ((\<forall>j k st. state_after_v10 llm config10 try_parse create_fallback 0
               \<lparr>cells_v10 = [(''initial'', query)], current_cell_id_v10 = Some ''initial''\<rparr> j =
               Some (k, st)
        \<longrightarrow> \<not> contains (upper (llm k (main_prompt_of config10 st))) ''SOLVED'')
      \<longrightarrow> solve_v10 llm config10 try_parse create_fallback query = None)"
proof -
  let ?s0 = "initial_state query"
  let ?s10 = "\<lparr>cells_v10 = [(''initial'', query)], current_cell_id_v10 = Some ''initial''\<rparr>"
  have a: "solve llm uuid4 config query = Some (Inr answer)
      \<longleftrightarrow> (\<exists>j n st. state_after llm uuid4 config 0 0 ?s0 j = Some (n, st) \<and>
             contains (llm j (iteration_prompt config st)) ''STATUS: SOLVED'' \<and>
             answer = get_solution llm config (Suc j) st)" for answer
  proof
    assume "solve llm uuid4 config query = Some (Inr answer)"
    then have "solve_loop llm uuid4 config 0 0 ?s0 = Some (Inr answer)" by (simp add: solve_def)
    from solve_loop_run[OF this] show "\<exists>j n st. state_after llm uuid4 config 0 0 ?s0 j = Some (n, st) \<and>
             contains (llm j (iteration_prompt config st)) ''STATUS: SOLVED'' \<and>
             answer = get_solution llm config (Suc j) st"
      by (auto simp: solve_iteration_Break_iff)
  next
    assume "\<exists>j n st. state_after llm uuid4 config 0 0 ?s0 j = Some (n, st) \<and>
             contains (llm j (iteration_prompt config st)) ''STATUS: SOLVED'' \<and>
             answer = get_solution llm config (Suc j) st"
    then obtain j n st where s: "state_after llm uuid4 config 0 0 ?s0 j = Some (n, st)"
      and c: "contains (llm j (iteration_prompt config st)) ''STATUS: SOLVED''"
      and e: "answer = get_solution llm config (Suc j) st"
      by blast
    from c have "snd (solve_iteration llm uuid4 config (0 + j) n st) = Break"
      by (simp add: solve_iteration_Break_iff)
    from state_after_break[OF s this] e show "solve llm uuid4 config query = Some (Inr answer)"
      by (simp add: solve_def)
  qed
  have b: "solve llm uuid4 config query = None
      \<longleftrightarrow> (\<forall>j. state_after llm uuid4 config 0 0 ?s0 j \<noteq> None)"
    unfolding solve_def by (rule solve_loop_None_iff)
  have r: "solve llm uuid4 config query = Some (Inl e)
      \<longleftrightarrow> (\<exists>j n st. state_after llm uuid4 config 0 0 ?s0 j = Some (n, st) \<and>
             \<not> contains (llm j (iteration_prompt config st)) ''STATUS: SOLVED'' \<and>
             apply_changes uuid4 n st (llm j (iteration_prompt config st)) = Inl e)"
  proof
    assume "solve llm uuid4 config query = Some (Inl e)"
    then have "solve_loop llm uuid4 config 0 0 ?s0 = Some (Inl e)" by (simp add: solve_def)
    from solve_loop_run[OF this]
    show "\<exists>j n st. state_after llm uuid4 config 0 0 ?s0 j = Some (n, st) \<and>
             \<not> contains (llm j (iteration_prompt config st)) ''STATUS: SOLVED'' \<and>
             apply_changes uuid4 n st (llm j (iteration_prompt config st)) = Inl e"
      by (auto simp: solve_iteration_Raise_iff)
  next
    assume "\<exists>j n st. state_after llm uuid4 config 0 0 ?s0 j = Some (n, st) \<and>
             \<not> contains (llm j (iteration_prompt config st)) ''STATUS: SOLVED'' \<and>
             apply_changes uuid4 n st (llm j (iteration_prompt config st)) = Inl e"
    then obtain j n st where s: "state_after llm uuid4 config 0 0 ?s0 j = Some (n, st)"
      and c: "\<not> contains (llm j (iteration_prompt config st)) ''STATUS: SOLVED''"
      and e: "apply_changes uuid4 n st (llm j (iteration_prompt config st)) = Inl e"
      by blast
    from c e have "snd (solve_iteration llm uuid4 config (0 + j) n st) = Raise e"
      by (simp add: solve_iteration_Raise_iff)
    from state_after_raise[OF s this] show "solve llm uuid4 config query = Some (Inl e)"
      by (simp add: solve_def)
  qed
  have c: "solve llm uuid4 config query = None \<or> (\<exists>e. solve llm uuid4 config query = Some (Inl e))"
    if h: "\<forall>j n st. state_after llm uuid4 config 0 0 ?s0 j = Some (n, st)
        \<longrightarrow> \<not> contains (llm j (iteration_prompt config st)) ''STATUS: SOLVED''"
  proof (cases "solve llm uuid4 config query")
    case None
    then show ?thesis by simp
  next
    case (Some r)
    show ?thesis
    proof (cases r)
      case (Inl e)
      with Some show ?thesis by simp
    next
      case (Inr x)
      with Some a[of x] h show ?thesis by blast
    qed
  qed
  have d: "solve_v10 llm config10 try_parse create_fallback query = Some response
      \<longleftrightarrow> (\<exists>j k st. state_after_v10 llm config10 try_parse create_fallback 0 ?s10 j = Some (k, st) \<and>
             contains (upper (llm k (main_prompt_of config10 st))) ''SOLVED'' \<and>
             response = llm k (main_prompt_of config10 st))" for response
  proof
    assume "solve_v10 llm config10 try_parse create_fallback query = Some response"
    then have "solve_loop_v10 llm config10 try_parse create_fallback 0 ?s10 = Some response"
      by (simp add: solve_v10_def)
    from solve_loop_v10_run[OF this]
    show "\<exists>j k st. state_after_v10 llm config10 try_parse create_fallback 0 ?s10 j = Some (k, st) \<and>
             contains (upper (llm k (main_prompt_of config10 st))) ''SOLVED'' \<and>
             response = llm k (main_prompt_of config10 st)"
      by blast
  next
    assume "\<exists>j k st. state_after_v10 llm config10 try_parse create_fallback 0 ?s10 j = Some (k, st) \<and>
             contains (upper (llm k (main_prompt_of config10 st))) ''SOLVED'' \<and>
             response = llm k (main_prompt_of config10 st)"
    then obtain j k st where
      s: "state_after_v10 llm config10 try_parse create_fallback 0 ?s10 j = Some (k, st)"
      and c: "contains (upper (llm k (main_prompt_of config10 st))) ''SOLVED''"
      and e: "response = llm k (main_prompt_of config10 st)"
      by blast
    from state_after_v10_return[OF s c] e
    show "solve_v10 llm config10 try_parse create_fallback query = Some response"
      by (simp add: solve_v10_def)
  qed
  have e: "solve_v10 llm config10 try_parse create_fallback query = None
      \<longleftrightarrow> (\<forall>j. state_after_v10 llm config10 try_parse create_fallback 0 ?s10 j \<noteq> None)"
    unfolding solve_v10_def by (rule solve_loop_v10_None_iff)
  have f: "solve_v10 llm config10 try_parse create_fallback query = None"
    if h: "\<forall>j k st. state_after_v10 llm config10 try_parse create_fallback 0 ?s10 j = Some (k, st)
        \<longrightarrow> \<not> contains (upper (llm k (main_prompt_of config10 st))) ''SOLVED''"
  proof (cases "solve_v10 llm config10 try_parse create_fallback query")
    case None
    then show ?thesis .
  next
    case (Some r)
    with d[of r] h show ?thesis by blast
  qed
  from a[of answer] b r c d[of response] e f show ?thesis by blast
qed


text \<open>Three models in the examples: one whose every response is the marker, one whose
  every response is empty, and one whose every response is a \<open>MODIFY CELL\<close> line with no
  colon.\<close>

theorem solve_returns_only_on_marker_witness:
  "state_after (\<lambda>k p. ''STATUS: SOLVED'') uuid4_ab DEFAULT_SOLVER_CONFIG 0 0 (initial_state ''q'') 0 =
     Some (0, initial_state ''q'') \<and>
   contains ((\<lambda>k p. ''STATUS: SOLVED'') (0::nat)
      (iteration_prompt DEFAULT_SOLVER_CONFIG (initial_state ''q''))) ''STATUS: SOLVED'' \<and>
   solve (\<lambda>k p. ''STATUS: SOLVED'') uuid4_ab DEFAULT_SOLVER_CONFIG ''q'' = Some (Inr ''STATUS: SOLVED'') \<and>
   state_after_v10 (\<lambda>k p. ''STATUS: SOLVED'') DEFAULT_SOLVER_CONFIG_v10 (\<lambda>r. Inl []) (\<lambda>s r. s) 0
      \<lparr>cells_v10 = [(''initial'', ''q'')], current_cell_id_v10 = Some ''initial''\<rparr> 0 =
     Some (0, \<lparr>cells_v10 = [(''initial'', ''q'')], current_cell_id_v10 = Some ''initial''\<rparr>) \<and>
   contains (upper ((\<lambda>k p. ''STATUS: SOLVED'') (0::nat) (main_prompt_of DEFAULT_SOLVER_CONFIG_v10
        \<lparr>cells_v10 = [(''initial'', ''q'')], current_cell_id_v10 = Some ''initial''\<rparr>))) ''SOLVED'' \<and>
   solve_v10 (\<lambda>k p. ''STATUS: SOLVED'') DEFAULT_SOLVER_CONFIG_v10 (\<lambda>r. Inl []) (\<lambda>s r. s) ''q'' =
     Some ''STATUS: SOLVED'' \<and>
   \<not> contains [] ''STATUS: SOLVED'' \<and>
   \<not> contains (upper []) ''SOLVED'' \<and>
   solve (\<lambda>k p. []) uuid4_ab DEFAULT_SOLVER_CONFIG ''q'' = None \<and>
   (\<forall>j. state_after (\<lambda>k p. []) uuid4_ab DEFAULT_SOLVER_CONFIG 0 0 (initial_state ''q'') j \<noteq> None) \<and>
   solve_v10 (\<lambda>k p. []) DEFAULT_SOLVER_CONFIG_v10 (\<lambda>r. Inl []) (\<lambda>s r. s) ''q'' = None \<and>
   (\<forall>j. state_after_v10 (\<lambda>k p. []) DEFAULT_SOLVER_CONFIG_v10 (\<lambda>r. Inl []) (\<lambda>s r. s) 0
      \<lparr>cells_v10 = [(''initial'', ''q'')], current_cell_id_v10 = Some ''initial''\<rparr> j \<noteq> None) \<and>
   \<not> contains ''- MODIFY CELL initial'' ''STATUS: SOLVED'' \<and>
   apply_changes uuid4_ab 0 (initial_state ''q'') ''- MODIFY CELL initial'' = Inl IndexError \<and>
   solve (\<lambda>k p. ''- MODIFY CELL initial'') uuid4_ab DEFAULT_SOLVER_CONFIG ''q'' =
     Some (Inl IndexError)"
proof -
  let ?llm = "\<lambda>(k::nat) (p::string). ''STATUS: SOLVED''"
  let ?silent = "\<lambda>(k::nat) (p::string). ([]::string)"
  let ?bad = "\<lambda>(k::nat) (p::string). ''- MODIFY CELL initial''"
  let ?s10 = "\<lparr>cells_v10 = [(''initial'', ''q'')], current_cell_id_v10 = Some ''initial''\<rparr>"
  note inst = solve_returns_only_on_marker[of ?llm uuid4_ab DEFAULT_SOLVER_CONFIG "''q''"
      "''STATUS: SOLVED''" IndexError DEFAULT_SOLVER_CONFIG_v10 "\<lambda>r. Inl []" "\<lambda>s r. s"
      "''STATUS: SOLVED''"]
  note silent = solve_returns_only_on_marker[of ?silent uuid4_ab DEFAULT_SOLVER_CONFIG "''q''"
      "[]" IndexError DEFAULT_SOLVER_CONFIG_v10 "\<lambda>r. Inl []" "\<lambda>s r. s" "[]"]
  note raising = solve_returns_only_on_marker[of ?bad uuid4_ab DEFAULT_SOLVER_CONFIG "''q''"
      "[]" IndexError DEFAULT_SOLVER_CONFIG_v10 "\<lambda>r. Inl []" "\<lambda>s r. s" "[]"]
  have s0: "state_after ?llm uuid4_ab DEFAULT_SOLVER_CONFIG 0 0 (initial_state ''q'') 0 =
      Some (0, initial_state ''q'')"
    by simp
  have m: "contains (?llm 0 (iteration_prompt DEFAULT_SOLVER_CONFIG (initial_state ''q'')))
             ''STATUS: SOLVED''"
    by (simp add: contains_def startswith_def)
  have g: "''STATUS: SOLVED'' = get_solution ?llm DEFAULT_SOLVER_CONFIG (Suc 0) (initial_state ''q'')"
    by (simp add: get_solution_def)
  from s0 m g have ex: "\<exists>j n st.
      state_after ?llm uuid4_ab DEFAULT_SOLVER_CONFIG 0 0 (initial_state ''q'') j = Some (n, st) \<and>
      contains (?llm j (iteration_prompt DEFAULT_SOLVER_CONFIG st)) ''STATUS: SOLVED'' \<and>
      ''STATUS: SOLVED'' = get_solution ?llm DEFAULT_SOLVER_CONFIG (Suc j) st"
    by (intro exI[of _ 0] exI[of _ "initial_state ''q''"]) blast
  from inst ex have s: "solve ?llm uuid4_ab DEFAULT_SOLVER_CONFIG ''q'' = Some (Inr ''STATUS: SOLVED'')"
    by blast
  have s10: "state_after_v10 ?llm DEFAULT_SOLVER_CONFIG_v10 (\<lambda>r. Inl []) (\<lambda>s r. s) 0 ?s10 0 =
      Some (0, ?s10)"
    by simp
  have m10: "contains (upper (?llm 0 (main_prompt_of DEFAULT_SOLVER_CONFIG_v10 ?s10))) ''SOLVED''"
    by code_simp
  from s10 m10 have ex10: "\<exists>j k st.
      state_after_v10 ?llm DEFAULT_SOLVER_CONFIG_v10 (\<lambda>r. Inl []) (\<lambda>s r. s) 0 ?s10 j = Some (k, st) \<and>
      contains (upper (?llm k (main_prompt_of DEFAULT_SOLVER_CONFIG_v10 st))) ''SOLVED'' \<and>
      ''STATUS: SOLVED'' = ?llm k (main_prompt_of DEFAULT_SOLVER_CONFIG_v10 st)"
    by (intro exI[of _ 0] exI[of _ ?s10]) blast
  from inst ex10 have r10:
    "solve_v10 ?llm DEFAULT_SOLVER_CONFIG_v10 (\<lambda>r. Inl []) (\<lambda>s r. s) ''q'' = Some ''STATUS: SOLVED''"
    by blast
  have n: "\<not> contains [] ''STATUS: SOLVED''"
    by (simp add: contains_def startswith_def)
  have n10: "\<not> contains (upper []) ''SOLVED''"
    by (simp add: contains_def startswith_def upper_def)
  from silent n10 have q10:
    "solve_v10 ?silent DEFAULT_SOLVER_CONFIG_v10 (\<lambda>r. Inl []) (\<lambda>s r. s) ''q'' = None"
    by blast
  from silent q10 have a10:
    "\<forall>j. state_after_v10 ?silent DEFAULT_SOLVER_CONFIG_v10 (\<lambda>r. Inl []) (\<lambda>s r. s) 0 ?s10 j \<noteq> None"
    by blast
  have q: "solve ?silent uuid4_ab DEFAULT_SOLVER_CONFIG ''q'' = None"
    by (simp add: solve_def solve_loop_silent_model)
  from silent q have a:
    "\<forall>j. state_after ?silent uuid4_ab DEFAULT_SOLVER_CONFIG 0 0 (initial_state ''q'') j \<noteq> None"
    by blast
  have b0: "state_after ?bad uuid4_ab DEFAULT_SOLVER_CONFIG 0 0 (initial_state ''q'') 0 =
      Some (0, initial_state ''q'')"
    by simp
  have bm: "\<not> contains ''- MODIFY CELL initial'' ''STATUS: SOLVED''"
    by code_simp
  have ba: "apply_changes uuid4_ab 0 (initial_state ''q'') ''- MODIFY CELL initial'' = Inl IndexError"
    by (rule apply_changes_modify_without_colon)
  from b0 bm ba have "\<exists>j n st.
      state_after ?bad uuid4_ab DEFAULT_SOLVER_CONFIG 0 0 (initial_state ''q'') j = Some (n, st) \<and>
      \<not> contains (?bad j (iteration_prompt DEFAULT_SOLVER_CONFIG st)) ''STATUS: SOLVED'' \<and>
      apply_changes uuid4_ab n st (?bad j (iteration_prompt DEFAULT_SOLVER_CONFIG st)) = Inl IndexError"
    by (intro exI[of _ 0] exI[of _ "initial_state ''q''"]) blast
  with raising[THEN conjunct2, THEN conjunct2, THEN conjunct1]
  have br: "solve ?bad uuid4_ab DEFAULT_SOLVER_CONFIG ''q'' = Some (Inl IndexError)"
    by blast
  from s0 m s s10 m10 r10 n n10 q a q10 a10 bm ba br show ?thesis by blast
qed

theorem solve_budget_counterexample:
  "solve (\<lambda>k p. []) uuid4_ab DEFAULT_SOLVER_CONFIG ''q'' = None \<and>
   solve_v10 (\<lambda>k p. []) DEFAULT_SOLVER_CONFIG_v10 (\<lambda>r. Inl []) (\<lambda>s r. s) ''q'' = None"
  by (simp add: solve_def solve_v10_def solve_loop_silent_model solve_loop_v10_silent_model)

text \<open>
  C5. A response with the completion marker ends the loop with the state as it is, whatever
  else the response holds: none of its changes is applied. The model call is all that the
  iteration does; no warning is written anywhere.
\<close>

theorem marker_discards_changes:
  "(contains (llm k (iteration_prompt config state)) ''STATUS: SOLVED''
      \<longrightarrow> solve_iteration llm uuid4 config k n state =
            ([GetCompletion (iteration_prompt config state)], Break) \<and>
          solve_loop llm uuid4 config k n state =
            Some (Inr (get_solution llm config (Suc k) state))) \<and>
   (contains (upper (llm k (main_prompt_of config10 state10))) ''SOLVED''
      \<longrightarrow> solve_iteration_v10 llm config10 try_parse create_fallback k state10 =
            ([GetCompletion (main_prompt_of config10 state10)],
             Return (llm k (main_prompt_of config10 state10))) \<and>
          solve_loop_v10 llm config10 try_parse create_fallback k state10 =
            Some (llm k (main_prompt_of config10 state10)))"
  by (simp add: solve_loop_solved solve_loop_v10_solved solve_iteration_def
        solve_iteration_v10_def Let_def)

theorem marker_discards_changes_witness:
  "contains ((\<lambda>k p. ''- NEW CELL: x\<newline>STATUS: SOLVED'') (0::nat)
      (iteration_prompt DEFAULT_SOLVER_CONFIG (initial_state ''q''))) ''STATUS: SOLVED'' \<and>
   solve_iteration (\<lambda>k p. ''- NEW CELL: x\<newline>STATUS: SOLVED'') uuid4_ab DEFAULT_SOLVER_CONFIG 0 0
       (initial_state ''q'') =
     ([GetCompletion (iteration_prompt DEFAULT_SOLVER_CONFIG (initial_state ''q''))], Break) \<and>
   contains (upper ((\<lambda>k p. ''- NEW CELL: x\<newline>STATUS: SOLVED'') (0::nat)
      (main_prompt_of DEFAULT_SOLVER_CONFIG_v10
        \<lparr>cells_v10 = [(''initial'', ''q'')], current_cell_id_v10 = Some ''initial''\<rparr>))) ''SOLVED'' \<and>
   solve_loop_v10 (\<lambda>k p. ''- NEW CELL: x\<newline>STATUS: SOLVED'') DEFAULT_SOLVER_CONFIG_v10
       (\<lambda>r. Inl []) (\<lambda>s r. s) 0
       \<lparr>cells_v10 = [(''initial'', ''q'')], current_cell_id_v10 = Some ''initial''\<rparr> =
     Some ''- NEW CELL: x\<newline>STATUS: SOLVED''"
proof -
  let ?llm = "\<lambda>(k::nat) (p::string). ''- NEW CELL: x\<newline>STATUS: SOLVED''"
  let ?s10 = "\<lparr>cells_v10 = [(''initial'', ''q'')], current_cell_id_v10 = Some ''initial''\<rparr>"
  note inst = marker_discards_changes[of ?llm 0 DEFAULT_SOLVER_CONFIG "initial_state ''q''"
      uuid4_ab 0 DEFAULT_SOLVER_CONFIG_v10 ?s10 "\<lambda>r. Inl []" "\<lambda>s r. s"]
  have m: "contains (?llm 0 (iteration_prompt DEFAULT_SOLVER_CONFIG (initial_state ''q'')))
             ''STATUS: SOLVED''"
    by (simp add: contains_def startswith_def)
  have m10: "contains (upper (?llm 0 (main_prompt_of DEFAULT_SOLVER_CONFIG_v10 ?s10))) ''SOLVED''"
    by code_simp
  from inst m m10 show ?thesis by simp
qed

theorem marker_warning_counterexample:
  "solve_iteration (\<lambda>k p. ''- NEW CELL: x\<newline>STATUS: SOLVED'') uuid4_ab DEFAULT_SOLVER_CONFIG 0 0
       (initial_state ''q'') =
     ([GetCompletion (iteration_prompt DEFAULT_SOLVER_CONFIG (initial_state ''q''))], Break) \<and>
   solve_iteration_v10 (\<lambda>k p. ''CELL: x\<newline>solved'') DEFAULT_SOLVER_CONFIG_v10 (\<lambda>r. Inl []) (\<lambda>s r. s) 0
       \<lparr>cells_v10 = [(''initial'', ''q'')], current_cell_id_v10 = Some ''initial''\<rparr> =
     ([GetCompletion (main_prompt_of DEFAULT_SOLVER_CONFIG_v10
         \<lparr>cells_v10 = [(''initial'', ''q'')], current_cell_id_v10 = Some ''initial''\<rparr>)],
      Return ''CELL: x\<newline>solved'')"
  by code_simp


text \<open>
  C2. One iteration of \<open>solve\<close> is not total: on the response \<open>- MODIFY CELL initial\<close>, a
  line with no colon, \<open>_apply_changes\<close> raises IndexError, and \<open>solve\<close> ends with that
  exception, for every state, configuration and identifier source.
\<close>

theorem solve_raises_on_modify_line_without_colon:
  "snd (solve_iteration (\<lambda>k p. ''- MODIFY CELL initial'') uuid4 config k n state) = Raise IndexError \<and>
   solve (\<lambda>k p. ''- MODIFY CELL initial'') uuid4 config query = Some (Inl IndexError)"
proof -
  have c: "changes_of ''- MODIFY CELL initial'' = [''- MODIFY CELL initial'']"
    by code_simp
  have a: "apply_change uuid4 (n, s) ''- MODIFY CELL initial'' = Inl IndexError" for n s
    by (simp add: apply_change_def str_defs)
  have i: "snd (solve_iteration (\<lambda>k p. ''- MODIFY CELL initial'') uuid4 config k n s) = Raise IndexError"
    for k n s
    by (simp add: solve_iteration_def contains_def startswith_def apply_changes_def c a)
  have "solve_loop (\<lambda>k p. ''- MODIFY CELL initial'') uuid4 config 0 0 (initial_state query) =
      Some (Inl IndexError)"
    by (subst solve_loop.simps) (simp add: i)
  with i show ?thesis by (simp add: solve_def)
qed

text \<open>
  C6. The recovery of one iteration has one correction attempt, and no configured maximum:
  the calls of an iteration are the main prompt, then (exactly when the response is not a
  solution and does not parse) one correction prompt that carries that response and the
  issues found, then (exactly when the correction response does not parse either) the
  fallback prompt.
\<close>

theorem recovery_has_one_correction_attempt:
  "length (fst (solve_iteration_v10 llm config try_parse create_fallback k state)) \<le> 3 \<and>
   fst (solve_iteration_v10 llm config try_parse create_fallback k state) ! 0 =
     GetCompletion (main_prompt_of config state) \<and>
   (2 \<le> length (fst (solve_iteration_v10 llm config try_parse create_fallback k state)) \<longleftrightarrow>
      \<not> contains (upper (llm k (main_prompt_of config state))) ''SOLVED'' \<and>
      (\<exists>issues. try_parse (llm k (main_prompt_of config state)) = Inl issues)) \<and>
   (\<forall>issues. 2 \<le> length (fst (solve_iteration_v10 llm config try_parse create_fallback k state)) \<and>
        try_parse (llm k (main_prompt_of config state)) = Inl issues \<longrightarrow>
      fst (solve_iteration_v10 llm config try_parse create_fallback k state) ! 1 =
        GetCompletion (correction_prompt config (llm k (main_prompt_of config state)) issues)) \<and>
   (length (fst (solve_iteration_v10 llm config try_parse create_fallback k state)) = 3 \<longleftrightarrow>
      \<not> contains (upper (llm k (main_prompt_of config state))) ''SOLVED'' \<and>
      (\<exists>issues issues'. try_parse (llm k (main_prompt_of config state)) = Inl issues \<and>
         try_parse (llm (k + 1)
           (correction_prompt config (llm k (main_prompt_of config state)) issues)) = Inl issues')) \<and>
   (length (fst (solve_iteration_v10 llm config try_parse create_fallback k state)) = 3 \<longrightarrow>
      fst (solve_iteration_v10 llm config try_parse create_fallback k state) ! 2 =
        GetCompletion (fallback_prompt config))"
proof -
  let ?p0 = "main_prompt_of config state"
  let ?r0 = "llm k ?p0"
  let ?it = "solve_iteration_v10 llm config try_parse create_fallback k state"
  show ?thesis
  proof (cases "contains (upper ?r0) ''SOLVED''")
    case True
    then have "fst ?it = [GetCompletion ?p0]"
      by (simp add: solve_iteration_v10_def Let_def)
    with True show ?thesis by simp
  next
    case unsolved: False
    show ?thesis
    proof (cases "try_parse ?r0")
      case (Inr result)
      with unsolved have "fst ?it = [GetCompletion ?p0]"
        by (simp add: solve_iteration_v10_def Let_def)
      with Inr show ?thesis by simp
    next
      case (Inl issues)
      let ?p1 = "correction_prompt config ?r0 issues"
      show ?thesis
      proof (cases "try_parse (llm (k + 1) ?p1)")
        case (Inr result)
        with unsolved Inl have "fst ?it = [GetCompletion ?p0, GetCompletion ?p1]"
          by (simp add: solve_iteration_v10_def Let_def)
        with unsolved Inl Inr show ?thesis by simp
      next
        case failed: (Inl issues')
        with unsolved Inl have "fst ?it =
            [GetCompletion ?p0, GetCompletion ?p1, GetCompletion (fallback_prompt config)]"
          by (simp add: solve_iteration_v10_def Let_def)
        with unsolved Inl failed show ?thesis by simp
      qed
    qed
  qed
qed

text \<open>In the examples the parser is one that finds no state in the response, as any parser
  of the prompted format must on the empty response, and the fallback keeps the state.\<close>

theorem recovery_has_one_correction_attempt_witness:
  "\<not> contains (upper []) ''SOLVED'' \<and>
   (\<lambda>r::string. Inl ''no state'' :: string + system_state_v10) [] = Inl ''no state'' \<and>
   length (fst (solve_iteration_v10 (\<lambda>k p. []) DEFAULT_SOLVER_CONFIG_v10 (\<lambda>r. Inl ''no state'')
       (\<lambda>s r. s) 0 \<lparr>cells_v10 = [(''initial'', ''q'')], current_cell_id_v10 = Some ''initial''\<rparr>)) = 3 \<and>
   fst (solve_iteration_v10 (\<lambda>k p. []) DEFAULT_SOLVER_CONFIG_v10 (\<lambda>r. Inl ''no state'')
       (\<lambda>s r. s) 0 \<lparr>cells_v10 = [(''initial'', ''q'')], current_cell_id_v10 = Some ''initial''\<rparr>) ! 1 =
     GetCompletion (correction_prompt DEFAULT_SOLVER_CONFIG_v10 [] ''no state'') \<and>
   fst (solve_iteration_v10 (\<lambda>k p. []) DEFAULT_SOLVER_CONFIG_v10 (\<lambda>r. Inl ''no state'')
       (\<lambda>s r. s) 0 \<lparr>cells_v10 = [(''initial'', ''q'')], current_cell_id_v10 = Some ''initial''\<rparr>) ! 2 =
     GetCompletion (fallback_prompt DEFAULT_SOLVER_CONFIG_v10)"
proof -
  let ?s = "\<lparr>cells_v10 = [(''initial'', ''q'')], current_cell_id_v10 = Some ''initial''\<rparr>"
  let ?calls = "fst (solve_iteration_v10 (\<lambda>k p. []) DEFAULT_SOLVER_CONFIG_v10 (\<lambda>r. Inl ''no state'')
       (\<lambda>s r. s) 0 ?s)"
  note inst = recovery_has_one_correction_attempt[of "\<lambda>k p. []" DEFAULT_SOLVER_CONFIG_v10
      "\<lambda>r. Inl ''no state''" "\<lambda>s r. s" 0 ?s]
  have m: "\<not> contains (upper []) ''SOLVED''"
    by (simp add: contains_def upper_def startswith_def)
  from inst m have l: "length ?calls = 3" by simp
  from inst l have c: "?calls ! 1 = GetCompletion (correction_prompt DEFAULT_SOLVER_CONFIG_v10 [] ''no state'')"
    by simp
  from inst l have f: "?calls ! 2 = GetCompletion (fallback_prompt DEFAULT_SOLVER_CONFIG_v10)"
    by blast
  from m l c f show ?thesis by simp
qed

theorem correction_attempts_counterexample:
  "fst (solve_iteration_v10 (\<lambda>k p. []) DEFAULT_SOLVER_CONFIG_v10 (\<lambda>r. Inl ''no state'')
       (\<lambda>s r. s) 0 \<lparr>cells_v10 = [(''initial'', ''q'')], current_cell_id_v10 = Some ''initial''\<rparr>) =
     [GetCompletion (main_prompt_of DEFAULT_SOLVER_CONFIG_v10
        \<lparr>cells_v10 = [(''initial'', ''q'')], current_cell_id_v10 = Some ''initial''\<rparr>),
      GetCompletion (correction_prompt DEFAULT_SOLVER_CONFIG_v10 [] ''no state''),
      GetCompletion (fallback_prompt DEFAULT_SOLVER_CONFIG_v10)]"
  by (simp add: solve_iteration_v10_def Let_def contains_def upper_def startswith_def)


section \<open>The project tree: walks up the parent chain\<close>


lemma ancestor_None [simp]: "ancestor ns j None = None"
  by (induction j) (auto simp: parent_of_def truthy_def)

lemma ancestor_falsy: "\<not> truthy x \<Longrightarrow> ancestor ns j x = None"
  by (cases j) (auto simp: parent_of_def)

lemma ancestor_add: "ancestor ns (a + b) x = ancestor ns b (ancestor ns a x)"
proof (induction a arbitrary: x)
  case 0
  show ?case by (cases "truthy x") (auto simp: ancestor_falsy)
next
  case (Suc a)
  then show ?case by simp
qed

lemma ancestor_None_mono: "ancestor ns a x = None \<Longrightarrow> ancestor ns (a + b) x = None"
  by (simp add: ancestor_add)

lemma ancestor_period:
  assumes "ancestor ns (Suc j) (Some c) = Some c"
  shows "ancestor ns (m * Suc j) (Some c) = Some c"
proof (induction m)
  case 0
  from assms have "truthy (Some c)" by (auto simp: parent_of_def split: if_splits)
  then show ?case by simp
next
  case (Suc m)
  have "Suc m * Suc j = m * Suc j + Suc j" by simp
  then have "ancestor ns (Suc m * Suc j) (Some c) = ancestor ns (m * Suc j + Suc j) (Some c)"
    by (rule arg_cong)
  also have "\<dots> = ancestor ns (Suc j) (ancestor ns (m * Suc j) (Some c))"
    by (rule ancestor_add)
  also have "\<dots> = Some c" by (simp only: Suc assms)
  finally show ?case .
qed

lemma cyclic_chain_never_ends:
  assumes "cyclic_chain ns start"
  shows "ancestor ns n (Some start) \<noteq> None"
proof
  assume stop: "ancestor ns n (Some start) = None"
  from assms obtain i j c where
    c: "ancestor ns i (Some start) = Some c" and loop: "ancestor ns (Suc j) (Some c) = Some c"
    unfolding cyclic_chain_def by blast
  have A: "ancestor ns (i + n * Suc j) (Some start) = Some c"
    by (simp only: ancestor_add c ancestor_period[OF loop])
  have "n \<le> i + n * Suc j" by simp
  then obtain d where d: "i + n * Suc j = n + d" using le_Suc_ex by blast
  have "ancestor ns (n + d) (Some start) = None" by (rule ancestor_None_mono[OF stop])
  with A[unfolded d] show False by simp
qed

lemma path_walk_ends:
  assumes "path_walk ns node_id path = Some r"
  shows "\<exists>j. ancestor ns j node_id = None"
  using assms
proof (rule path_walk.raw_induct[rotated])
  fix f ns node_id path r
  assume IH: "\<And>ns node_id path y. f ns node_id path = Some y \<Longrightarrow> \<exists>j. ancestor ns j node_id = None"
    and step: "(if truthy node_id
         then case dict_get ns (the node_id) of None \<Rightarrow> Some (Inl KeyError)
              | Some node \<Rightarrow> f ns (parent_id node) (path @ [node])
         else Some (Inr path)) = Some r"
  show "\<exists>j. ancestor ns j node_id = None"
  proof (cases "truthy node_id")
    case False
    then show ?thesis by (meson ancestor_falsy)
  next
    case True
    show ?thesis
    proof (cases "dict_get ns (the node_id)")
      case None
      with True have "ancestor ns (Suc 0) node_id = None" by (simp add: parent_of_def)
      then show ?thesis by blast
    next
      case (Some node)
      with True step have "f ns (parent_id node) (path @ [node]) = Some r" by simp
      from IH[OF this] obtain j where j: "ancestor ns j (parent_id node) = None" by blast
      have "ancestor ns (Suc j) node_id = None"
        using True Some j by (cases "truthy (parent_id node)") (auto simp: parent_of_def)
      then show ?thesis by blast
    qed
  qed
qed

lemma path_walk_total:
  "ancestor ns j node_id = None \<Longrightarrow> path_walk ns node_id path \<noteq> None"
proof (induction j arbitrary: node_id path)
  case 0
  then show ?case by (subst path_walk.simps) (auto simp: truthy_def split: if_splits)
next
  case (Suc j)
  show ?case
  proof (cases "truthy node_id")
    case False
    then show ?thesis by (subst path_walk.simps) auto
  next
    case True
    show ?thesis
    proof (cases "dict_get ns (the node_id)")
      case None
      with True show ?thesis by (subst path_walk.simps) auto
    next
      case (Some node)
      have "ancestor ns j (parent_id node) = None"
        using Suc.prems True Some by (cases "truthy (parent_id node)") (auto simp: parent_of_def ancestor_falsy)
      from Suc.IH[OF this] True Some show ?thesis by (subst path_walk.simps) auto
    qed
  qed
qed

lemma path_walk_root:
  assumes "path_walk ns node_id acc = Some r"
  shows "\<forall>p. r = Inr p \<longrightarrow> (p = acc \<and> \<not> truthy node_id) \<or> (p \<noteq> [] \<and> \<not> truthy (parent_id (last p)))"
  using assms
proof (rule path_walk.raw_induct[rotated])
  fix f ns node_id path r
  assume IH: "\<And>ns node_id path y. f ns node_id path = Some y \<Longrightarrow> \<forall>p. y = Inr p \<longrightarrow> (p = path \<and> \<not> truthy node_id) \<or> (p \<noteq> [] \<and> \<not> truthy (parent_id (last p)))"
    and step: "(if truthy node_id
         then case dict_get ns (the node_id) of None \<Rightarrow> Some (Inl KeyError)
              | Some node \<Rightarrow> f ns (parent_id node) (path @ [node])
         else Some (Inr path)) = Some r"
  show "\<forall>p. r = Inr p \<longrightarrow> (p = path \<and> \<not> truthy node_id) \<or> (p \<noteq> [] \<and> \<not> truthy (parent_id (last p)))"
  proof (cases "truthy node_id")
    case False
    with step show ?thesis by auto
  next
    case True
    show ?thesis
    proof (cases "dict_get ns (the node_id)")
      case None
      with True step show ?thesis by auto
    next
      case (Some node)
      with True step have "f ns (parent_id node) (path @ [node]) = Some r" by simp
      from IH[OF this] show ?thesis by auto
    qed
  qed
qed


lemma parent_id_set_summary [simp]: "parent_id (set_summary n s) = parent_id n"
  by (cases n) simp

lemma parent_of_set_summary:
  "dict_get ns k = Some n \<Longrightarrow> parent_of (dict_set ns k (set_summary n s)) x = parent_of ns x"
  by (auto simp: parent_of_def dict_get_dict_set)

lemma ancestor_set_summary:
  "dict_get ns k = Some n \<Longrightarrow> ancestor (dict_set ns k (set_summary n s)) j x = ancestor ns j x"
  by (induction j arbitrary: x) (auto simp: parent_of_set_summary)

lemma propagate_walk_ends:
  assumes "propagate_walk llm k ns node_id = Some r"
  shows "\<exists>j. ancestor ns j node_id = None"
  using assms
proof (rule propagate_walk.raw_induct[rotated])
  fix f llm k ns node_id r
  assume IH: "\<And>llm k ns node_id y. f llm k ns node_id = Some y \<Longrightarrow> \<exists>j. ancestor ns j node_id = None"
    and step: "(if truthy node_id
         then case dict_get ns (the node_id) of None \<Rightarrow> Some (Inl KeyError)
              | Some parent \<Rightarrow>
                  let parent_summary =
                        llm k
                         (SummaryPrompt (goal parent) (node_content parent)
                           (map (\<lambda>(i, c). summary c) (children parent)))
                  in f llm (Suc k)
                      (dict_set ns (the node_id) (set_summary parent parent_summary))
                      (parent_id parent)
         else Some (Inr (k, ns))) = Some r"
  show "\<exists>j. ancestor ns j node_id = None"
  proof (cases "truthy node_id")
    case False
    then show ?thesis by (meson ancestor_falsy)
  next
    case True
    show ?thesis
    proof (cases "dict_get ns (the node_id)")
      case None
      with True have "ancestor ns (Suc 0) node_id = None" by (simp add: parent_of_def)
      then show ?thesis by blast
    next
      case (Some node)
      with True step obtain s where
        "f llm (Suc k) (dict_set ns (the node_id) (set_summary node s)) (parent_id node) = Some r"
        by (simp add: Let_def)
      from IH[OF this] obtain j where
        "ancestor (dict_set ns (the node_id) (set_summary node s)) j (parent_id node) = None"
        by blast
      then have j: "ancestor ns j (parent_id node) = None" by (simp add: ancestor_set_summary[OF Some])
      have "ancestor ns (Suc j) node_id = None"
        using True Some j by (cases "truthy (parent_id node)") (auto simp: parent_of_def)
      then show ?thesis by blast
    qed
  qed
qed


lemma path_walk_stop: "\<not> truthy node_id \<Longrightarrow> path_walk ns node_id path = Some (Inr path)"
  by (subst path_walk.simps) simp

lemma path_walk_step:
  "truthy node_id \<Longrightarrow> dict_get ns (the node_id) = Some node \<Longrightarrow>
   path_walk ns node_id path = path_walk ns (parent_id node) (path @ [node])"
  by (subst path_walk.simps) simp

lemma cyclic_chain_focus:
  assumes "cyclic_chain ns start"
  obtains current where "dict_get ns start = Some current" and "truthy (parent_id current)"
    and "\<And>j. ancestor ns j (parent_id current) \<noteq> None"
proof -
  have never: "ancestor ns j (Some start) \<noteq> None" for j
    by (rule cyclic_chain_never_ends[OF assms])
  from never[of 0] have t: "truthy (Some start)" by (auto split: if_splits)
  from never[of "Suc 0"] t obtain current where c: "dict_get ns start = Some current"
    by (auto simp: parent_of_def ancestor_None split: option.splits if_splits)
  from never[of "Suc 0"] t c have p: "truthy (parent_id current)"
    by (auto simp: parent_of_def ancestor_None split: if_splits)
  have "ancestor ns j (parent_id current) \<noteq> None" for j
    using never[of "Suc j"] t c p by (simp add: parent_of_def)
  with c p that show ?thesis by blast
qed

lemma get_path_to_current_cyclic:
  assumes "cyclic_chain (nodes state) (current_focus_id state)"
  shows "get_path_to_current state = None"
proof (cases "path_walk (nodes state) (Some (current_focus_id state)) []")
  case None
  then show ?thesis by (simp add: get_path_to_current_def)
next
  case (Some r)
  from path_walk_ends[OF this] cyclic_chain_never_ends[OF assms] show ?thesis by blast
qed

lemma propagate_summaries_cyclic:
  assumes "cyclic_chain (nodes state) (current_focus_id state)"
  shows "propagate_summaries llm k state = None"
proof -
  from assms obtain current where c: "dict_get (nodes state) (current_focus_id state) = Some current"
    and never: "\<And>j. ancestor (nodes state) j (parent_id current) \<noteq> None"
    by (rule cyclic_chain_focus) blast
  let ?s = "llm k (SummaryPrompt (goal current) (node_content current)
                     (map (\<lambda>(i, c). summary c) (children current)))"
  let ?ns = "dict_set (nodes state) (current_focus_id state) (set_summary current ?s)"
  have "propagate_walk llm (Suc k) ?ns (parent_id current) = None"
  proof (cases "propagate_walk llm (Suc k) ?ns (parent_id current)")
    case None
    then show ?thesis .
  next
    case (Some r)
    from propagate_walk_ends[OF this] obtain j where "ancestor ?ns j (parent_id current) = None"
      by blast
    then have "ancestor (nodes state) j (parent_id current) = None"
      by (simp add: ancestor_set_summary[OF c])
    with never show ?thesis by blast
  qed
  with c show ?thesis by (simp add: propagate_summaries_def get_current_node_def Let_def)
qed

lemma get_path_to_current_root:
  assumes "get_path_to_current state = Some (Inr path)"
  shows "path = [] \<or> \<not> truthy (parent_id (hd path))"
proof -
  from assms obtain p where w: "path_walk (nodes state) (Some (current_focus_id state)) [] = Some (Inr p)"
    and r: "path = rev p"
    by (auto simp: get_path_to_current_def split: option.splits sum.splits)
  from path_walk_root[OF w] have "p = [] \<or> (p \<noteq> [] \<and> \<not> truthy (parent_id (last p)))" by auto
  with r show ?thesis by (auto simp: hd_rev)
qed

lemma ancestor_key:
  assumes "ancestor ns j x = Some c" and "ancestor ns (Suc j) x \<noteq> None"
  shows "c \<in> fst ` set ns"
proof -
  have "ancestor ns (j + 1) x = ancestor ns 1 (ancestor ns j x)" by (rule ancestor_add)
  with assms have "ancestor ns 0 (parent_of ns (Some c)) \<noteq> None" by simp
  then have "parent_of ns (Some c) \<noteq> None" by (auto split: if_splits)
  then obtain node where "dict_get ns c = Some node"
    by (auto simp: parent_of_def split: if_splits option.splits)
  then have "(c, node) \<in> set ns" by (auto simp: dict_get_def dest: map_of_SomeD)
  then show ?thesis by force
qed

lemma endless_chain_cyclic:
  assumes "\<forall>j. ancestor ns j (Some start) \<noteq> None"
  shows "cyclic_chain ns start"
proof -
  define f where "f j = the (ancestor ns j (Some start))" for j
  have val: "ancestor ns j (Some start) = Some (f j)" for j
    using assms by (auto simp: f_def)
  have "f j \<in> fst ` set ns" for j
    using val[of j] assms by (auto intro: ancestor_key)
  then have "f ` {0..length ns} \<subseteq> fst ` set ns" by auto
  then have "card (f ` {0..length ns}) \<le> card (fst ` set ns)"
    by (intro card_mono) auto
  also have "\<dots> \<le> length ns"
    by (metis card_length length_map set_map)
  finally have "card (f ` {0..length ns}) < card {0..length ns}" by simp
  then have "\<not> inj_on f {0..length ns}" by (rule pigeonhole)
  then obtain a b where ab: "a \<noteq> b" "f a = f b" unfolding inj_on_def by blast
  define i where "i = min a b"
  define d where "d = max a b - min a b"
  have d: "0 < d" and sum: "i + d = max a b" using ab(1) by (auto simp: i_def d_def)
  have fi: "f i = f (i + d)"
  proof (cases "a \<le> b")
    case True
    then have "i = a" "i + d = b" by (auto simp: i_def d_def)
    with ab(2) show ?thesis by simp
  next
    case False
    then have "i = b" "i + d = a" by (auto simp: i_def d_def)
    with ab(2) show ?thesis by simp
  qed
  obtain d' where d': "d = Suc d'" using d by (cases d) auto
  have "ancestor ns (i + d) (Some start) = ancestor ns d (ancestor ns i (Some start))"
    by (rule ancestor_add)
  then have "ancestor ns (Suc d') (Some (f i)) = Some (f i)"
    using val[of i] val[of "i + d"] fi d' by simp
  with val[of i] show ?thesis unfolding cyclic_chain_def by blast
qed

lemma get_path_to_current_None_iff:
  "get_path_to_current state = None \<longleftrightarrow> cyclic_chain (nodes state) (current_focus_id state)"
proof
  assume "get_path_to_current state = None"
  then have "path_walk (nodes state) (Some (current_focus_id state)) [] = None"
    by (auto simp: get_path_to_current_def split: option.splits sum.splits)
  then have "\<forall>j. ancestor (nodes state) j (Some (current_focus_id state)) \<noteq> None"
    using path_walk_total by blast
  then show "cyclic_chain (nodes state) (current_focus_id state)" by (rule endless_chain_cyclic)
next
  assume "cyclic_chain (nodes state) (current_focus_id state)"
  then show "get_path_to_current state = None" by (rule get_path_to_current_cyclic)
qed

text \<open>
  C10. The walk of \<open>get_path_to_current\<close> up the parent chain fails to return exactly when
  the chain from the focus is cyclic: it has no result at all then, not even an exception,
  and neither has the walk of \<open>_propagate_summaries\<close>. A path that it does return starts
  at a node with no parent.
\<close>

theorem parent_walk_ends_only_without_cycle:
  "(get_path_to_current state = None \<longleftrightarrow> cyclic_chain (nodes state) (current_focus_id state)) \<and>
   (cyclic_chain (nodes state) (current_focus_id state)
      \<longrightarrow> propagate_summaries llm k state = None) \<and>
   (get_path_to_current state = Some (Inr path)
      \<longrightarrow> path = [] \<or> \<not> truthy (parent_id (hd path)))"
  using get_path_to_current_None_iff propagate_summaries_cyclic get_path_to_current_root
  by blast

theorem parent_walk_ends_only_without_cycle_witness:
  "cyclic_chain (nodes cyclic_project) (current_focus_id cyclic_project) \<and>
   get_path_to_current cyclic_project = None \<and>
   propagate_summaries (\<lambda>k p. []) 0 cyclic_project = None \<and>
   get_path_to_current (create_project ''g'') = Some (Inr [ProjectNode ''root'' ''g'' [] [] [] None]) \<and>
   \<not> cyclic_chain (nodes (create_project ''g'')) (current_focus_id (create_project ''g'')) \<and>
   \<not> truthy (parent_id (hd [ProjectNode ''root'' ''g'' [] [] [] None]))"
proof -
  have c: "cyclic_chain (nodes cyclic_project) (current_focus_id cyclic_project)"
    unfolding cyclic_chain_def
    by (rule exI[of _ 0], rule exI[of _ 1], rule exI[of _ "''a''"])
       (simp add: cyclic_project_def parent_of_def truthy_def dict_get_def)
  have g: "get_path_to_current (create_project ''g'') =
      Some (Inr [ProjectNode ''root'' ''g'' [] [] [] None])"
    by (simp add: get_path_to_current_def create_project_def path_walk_step[where node = "ProjectNode ''root'' ''g'' [] [] [] None"]
          path_walk_stop truthy_def dict_get_def)
  note inst1 = parent_walk_ends_only_without_cycle[of cyclic_project "\<lambda>k p. []" 0]
  note inst2 = parent_walk_ends_only_without_cycle[of "create_project ''g''" _ _
      "[ProjectNode ''root'' ''g'' [] [] [] None]"]
  from inst1 c have d: "get_path_to_current cyclic_project = None"
    "propagate_summaries (\<lambda>k p. []) 0 cyclic_project = None" by blast+
  from inst2 g have n: "\<not> cyclic_chain (nodes (create_project ''g'')) (current_focus_id (create_project ''g''))"
    "\<not> truthy (parent_id (hd [ProjectNode ''root'' ''g'' [] [] [] None]))" by auto
  from c d g n show ?thesis by blast
qed


section \<open>The project tree: history\<close>

lemma last_generation_snoc: "last_generation (hs @ [Generation g]) = Some g"
  by (induction hs) auto

lemma path_walk_raises_KeyError:
  assumes "path_walk ns node_id path = Some (Inl e)"
  shows "e = KeyError"
proof -
  have "path_walk ns node_id path = Some r \<Longrightarrow> r = Inl e \<longrightarrow> e = KeyError" for r
  proof (erule path_walk.raw_induct[rotated])
    fix f ns node_id path r
    assume IH: "\<And>ns node_id path y. f ns node_id path = Some y \<Longrightarrow> y = Inl e \<longrightarrow> e = KeyError"
      and step: "(if truthy node_id then
          (case dict_get ns (the node_id) of
             None \<Rightarrow> Some (Inl KeyError)
           | Some node \<Rightarrow> f ns (parent_id node) (path @ [node]))
        else Some (Inr path)) = Some r"
    show "r = Inl e \<longrightarrow> e = KeyError"
    proof (cases "truthy node_id")
      case False
      with step show ?thesis by auto
    next
      case True
      show ?thesis
      proof (cases "dict_get ns (the node_id)")
        case None
        with True step show ?thesis by auto
      next
        case (Some node)
        with True step have "f ns (parent_id node) (path @ [node]) = Some r" by simp
        from IH[OF this] show ?thesis .
      qed
    qed
  qed
  with assms show ?thesis by blast
qed

lemma analyze_current_state_outcomes:
  "analyze_current_state llm k state = None \<or>
   analyze_current_state llm k state = Some (Inl KeyError) \<or>
   (\<exists>a. analyze_current_state llm k state =
          Some (Inr (state\<lparr>history := history state @ [Analysis a]\<rparr>)))"
proof (cases "get_current_node state")
  case (Inl e)
  then have "e = KeyError" by (auto simp: get_current_node_def split: option.splits)
  with Inl show ?thesis by (simp add: analyze_current_state_def)
next
  case (Inr current)
  show ?thesis
  proof (cases "get_path_to_current state")
    case None
    with Inr show ?thesis by (simp add: analyze_current_state_def)
  next
    case (Some r)
    show ?thesis
    proof (cases r)
      case (Inl e)
      with Some have "path_walk (nodes state) (Some (current_focus_id state)) [] = Some (Inl e)"
        by (auto simp: get_path_to_current_def split: option.splits sum.splits)
      then have "e = KeyError" by (rule path_walk_raises_KeyError)
      with Inl Some Inr show ?thesis by (simp add: analyze_current_state_def)
    next
      case (Inr path)
      with Some \<open>get_current_node state = Inr current\<close> show ?thesis
        by (auto simp: analyze_current_state_def Let_def)
    qed
  qed
qed

lemma analyze_current_state_None_iff:
  "analyze_current_state llm k state = None
     \<longleftrightarrow> (\<exists>current. get_current_node state = Inr current) \<and>
         cyclic_chain (nodes state) (current_focus_id state)"
  unfolding get_path_to_current_None_iff[symmetric]
  by (auto simp: analyze_current_state_def Let_def split: sum.splits option.splits)

lemma analyze_current_state_history:
  "analyze_current_state llm k state = Some (Inr s1) \<Longrightarrow>
   \<exists>a. s1 = state\<lparr>history := history state @ [Analysis a]\<rparr>"
  by (auto simp: analyze_current_state_def Let_def split: sum.splits option.splits)

lemma generate_content_history:
  "generate_content llm k state = Inr s2 \<Longrightarrow>
   \<exists>g. s2 = state\<lparr>history := history state @ [Generation g]\<rparr>"
  by (auto simp: generate_content_def Let_def split: sum.splits)

lemma parse_content_history:
  "parse_content llm json_loads k state = Inr (k', s3) \<Longrightarrow>
   (case last_generation (history state) of
      None \<Rightarrow> s3 = state \<and> k' = k
    | Some g \<Rightarrow>
        if g = [] then s3 = state \<and> k' = k
        else (\<exists>p. json_loads g = Inr p \<and> k' = k \<and>
                s3 = state\<lparr>history := history state @ [ParsingSuccess p]\<rparr>) \<or>
             (json_loads g = Inl JSONDecodeError \<and> k' = Suc k \<and>
                s3 = state\<lparr>history := history state @
                       [ParsingRecovered (llm k (RecoveryPrompt g))]\<rparr>))"
  by (auto simp: parse_content_def Let_def split: option.splits if_splits sum.splits)

lemma parse_content_raises:
  "parse_content llm json_loads k state = Inl e
     \<longleftrightarrow> (\<exists>g. last_generation (history state) = Some g \<and> g \<noteq> [] \<and>
              json_loads g = Inl e \<and> e \<noteq> JSONDecodeError)"
  by (auto simp: parse_content_def Let_def split: option.splits if_splits sum.splits)

lemma last_parsing_snoc:
  "last_parsing (hs @ [ParsingSuccess p]) = Some p"
  "last_parsing (hs @ [ParsingRecovered r]) = Some (PyStr r)"
  "last_parsing (hs @ [Analysis a]) = last_parsing hs"
  "last_parsing (hs @ [Generation g]) = last_parsing hs"
  by (induction hs) (auto split: option.splits)

lemma py_truthy_iff:
  "py_truthy v \<longleftrightarrow> v \<notin> {PyNone, PyBool False, PyInt 0, PyStr [], PyList [], PyDict []}"
  by (cases v) auto

lemma update_structure_falsy:
  "last_parsing (history state) = None \<or>
   (\<exists>v. last_parsing (history state) = Some v \<and> \<not> py_truthy v) \<Longrightarrow>
   update_structure dict_update state = Inr state"
  by (auto simp: update_structure_def)

lemma update_structure_truthy:
  "last_parsing (history state) = Some v \<Longrightarrow> py_truthy v \<Longrightarrow>
   update_structure dict_update state =
     (case get_current_node state of
        Inl e \<Rightarrow> Inl e
      | Inr current \<Rightarrow>
          (case dict_update (node_content current) v of
             Inl e \<Rightarrow> Inl e
           | Inr c \<Rightarrow>
               Inr (state\<lparr>nodes := dict_set (nodes state) (current_focus_id state)
                                        (set_content current c)\<rparr>)))"
  by (simp add: update_structure_def)

lemma update_structure_recovered_text_example:
  "update_structure dict_update_example
     ((create_project ''g'')\<lparr>history := [Generation ''x'', ParsingRecovered ''{}'']\<rparr>) =
   Inl ValueError"
  by (simp add: update_structure_def dict_update_example_def get_current_node_def
        create_project_def dict_get_def)

lemma update_structure_history:
  "update_structure dict_update state = Inr s5 \<Longrightarrow> history s5 = history state"
  by (auto simp: update_structure_def split: option.splits if_splits sum.splits)

lemma propagate_walk_calls:
  assumes "propagate_walk llm k ns node_id = Some (Inr (k', ns'))"
  shows "k \<le> k'"
proof -
  have "propagate_walk llm k ns node_id = Some r \<Longrightarrow> \<forall>k' ns'. r = Inr (k', ns') \<longrightarrow> k \<le> k'" for r
  proof (erule propagate_walk.raw_induct[rotated])
    fix f llm k ns node_id r
    assume IH: "\<And>llm k ns node_id y. f llm k ns node_id = Some y \<Longrightarrow>
        \<forall>k' ns'. y = Inr (k', ns') \<longrightarrow> k \<le> k'"
      and step: "(if truthy node_id then
          (case dict_get ns (the node_id) of
             None \<Rightarrow> Some (Inl KeyError)
           | Some parent \<Rightarrow>
               (let parent_summary =
                      llm k (SummaryPrompt (goal parent) (node_content parent)
                               (map (\<lambda>(i, c). summary c) (children parent)))
                in f llm (Suc k)
                     (dict_set ns (the node_id) (set_summary parent parent_summary))
                     (parent_id parent)))
        else Some (Inr (k, ns))) = Some r"
    show "\<forall>k' ns'. r = Inr (k', ns') \<longrightarrow> k \<le> k'"
    proof (cases "truthy node_id")
      case False
      with step show ?thesis by auto
    next
      case True
      show ?thesis
      proof (cases "dict_get ns (the node_id)")
        case None
        with True step show ?thesis by auto
      next
        case (Some parent)
        with True step have "f llm (Suc k)
            (dict_set ns (the node_id) (set_summary parent
               (llm k (SummaryPrompt (goal parent) (node_content parent)
                         (map (\<lambda>(i, c). summary c) (children parent))))))
            (parent_id parent) = Some r"
          by (simp add: Let_def)
        from IH[OF this] show ?thesis by auto
      qed
    qed
  qed
  with assms show ?thesis by blast
qed

lemma propagate_summaries_history:
  assumes "propagate_summaries llm k state = Some (Inr (k6, s6))"
  shows "history s6 = history state \<and> k < k6"
proof -
  from assms obtain current ns' where
    w: "propagate_walk llm (Suc k)
          (dict_set (nodes state) (current_focus_id state)
             (set_summary current (llm k (SummaryPrompt (goal current) (node_content current)
                (map (\<lambda>(i, c). summary c) (children current))))))
          (parent_id current) = Some (Inr (k6, ns'))"
    and s: "s6 = state\<lparr>nodes := ns'\<rparr>"
    by (auto simp: propagate_summaries_def Let_def split: sum.splits option.splits)
  from propagate_walk_calls[OF w] s show ?thesis by simp
qed

lemma analyze_generate_parse_history:
  assumes "analyze_generate_parse llm json_loads k state = Some (Inr (k', s4))"
  shows "length (history s4) = length (history state) + 3 \<or>
         (length (history s4) = length (history state) + 2 \<and> last (history s4) = Generation [])"
proof -
  from assms obtain s1 s2 where
    a: "analyze_current_state llm k state = Some (Inr s1)" and
    g: "generate_content llm (Suc k) s1 = Inr s2" and
    p: "parse_content llm json_loads (Suc (Suc k)) s2 = Inr (k', s4)"
    by (auto simp: analyze_generate_parse_def split: option.splits sum.splits)
  from analyze_current_state_history[OF a] obtain x where h1: "history s1 = history state @ [Analysis x]"
    by auto
  from generate_content_history[OF g] obtain y where h2: "history s2 = history s1 @ [Generation y]"
    by auto
  have lg: "last_generation (history s2) = Some y" by (simp add: h2 last_generation_snoc)
  show ?thesis
  proof (cases "y = []")
    case True
    with parse_content_history[OF p] lg have "history s4 = history s2" by simp
    with h1 h2 True show ?thesis by simp
  next
    case False
    with parse_content_history[OF p] lg
    have "(\<exists>p. history s4 = history s2 @ [ParsingSuccess p]) \<or>
          (\<exists>r. history s4 = history s2 @ [ParsingRecovered r])" by auto
    with h1 h2 show ?thesis by auto
  qed
qed


text \<open>
  C7. The history does not grow by one entry per iteration; what a node of the graph appends
  is its own affair. \<open>_analyze_current_state\<close> either does not return (the parent chain of
  the focus is cyclic), raises \<open>KeyError\<close>, or returns the state with exactly one analysis
  entry appended. \<open>_generate_content\<close>, when it returns, appends exactly one generation entry.
  \<open>_parse_content\<close> returns the state as it is when no generation entry exists or the last one
  is empty; otherwise it appends exactly one parsing entry, with no model call when
  \<open>json.loads\<close> returns and with one when it raises \<open>JSONDecodeError\<close>, and the node raises
  when \<open>json.loads\<close> raises anything else. \<open>_update_structure\<close> and \<open>_propagate_summaries\<close> append
  nothing, though the latter calls the model at least once. A pass through the first three
  nodes that returns appends three entries, or two when the generated text is empty.
\<close>

theorem history_grows_per_node:
  "(analyze_current_state llm k state = None \<or>
    analyze_current_state llm k state = Some (Inl KeyError) \<or>
    (\<exists>a. analyze_current_state llm k state =
           Some (Inr (state\<lparr>history := history state @ [Analysis a]\<rparr>)))) \<and>
   (analyze_current_state llm k state = None
      \<longleftrightarrow> (\<exists>current. get_current_node state = Inr current) \<and>
          cyclic_chain (nodes state) (current_focus_id state)) \<and>
   (generate_content llm k state = Inr s2
      \<longrightarrow> (\<exists>g. s2 = state\<lparr>history := history state @ [Generation g]\<rparr>)) \<and>
   (parse_content llm json_loads k state = Inr (k', s3)
      \<longrightarrow> (case last_generation (history state) of
             None \<Rightarrow> s3 = state \<and> k' = k
           | Some g \<Rightarrow>
               if g = [] then s3 = state \<and> k' = k
               else (\<exists>p. json_loads g = Inr p \<and> k' = k \<and>
                       s3 = state\<lparr>history := history state @ [ParsingSuccess p]\<rparr>) \<or>
                    (json_loads g = Inl JSONDecodeError \<and> k' = Suc k \<and>
                       s3 = state\<lparr>history := history state @
                              [ParsingRecovered (llm k (RecoveryPrompt g))]\<rparr>))) \<and>
   (parse_content llm json_loads k state = Inl e
      \<longleftrightarrow> (\<exists>g. last_generation (history state) = Some g \<and> g \<noteq> [] \<and>
               json_loads g = Inl e \<and> e \<noteq> JSONDecodeError)) \<and>
   (update_structure dict_update state = Inr s5 \<longrightarrow> history s5 = history state) \<and>
   (propagate_summaries llm k state = Some (Inr (k6, s6))
      \<longrightarrow> history s6 = history state \<and> k < k6) \<and>
   (analyze_generate_parse llm json_loads k state = Some (Inr (k'', s4))
      \<longrightarrow> length (history s4) = length (history state) + 3 \<or>
          (length (history s4) = length (history state) + 2 \<and> last (history s4) = Generation []))"
proof (intro conjI)
  show "analyze_current_state llm k state = None \<or>
    analyze_current_state llm k state = Some (Inl KeyError) \<or>
    (\<exists>a. analyze_current_state llm k state =
           Some (Inr (state\<lparr>history := history state @ [Analysis a]\<rparr>)))"
    by (rule analyze_current_state_outcomes)
  show "analyze_current_state llm k state = None
      \<longleftrightarrow> (\<exists>current. get_current_node state = Inr current) \<and>
          cyclic_chain (nodes state) (current_focus_id state)"
    by (rule analyze_current_state_None_iff)
  show "generate_content llm k state = Inr s2
      \<longrightarrow> (\<exists>g. s2 = state\<lparr>history := history state @ [Generation g]\<rparr>)"
    using generate_content_history by blast
  show "parse_content llm json_loads k state = Inr (k', s3)
      \<longrightarrow> (case last_generation (history state) of
             None \<Rightarrow> s3 = state \<and> k' = k
           | Some g \<Rightarrow>
               if g = [] then s3 = state \<and> k' = k
               else (\<exists>p. json_loads g = Inr p \<and> k' = k \<and>
                       s3 = state\<lparr>history := history state @ [ParsingSuccess p]\<rparr>) \<or>
                    (json_loads g = Inl JSONDecodeError \<and> k' = Suc k \<and>
                       s3 = state\<lparr>history := history state @
                              [ParsingRecovered (llm k (RecoveryPrompt g))]\<rparr>))"
    by (rule impI) (rule parse_content_history)
  show "parse_content llm json_loads k state = Inl e
      \<longleftrightarrow> (\<exists>g. last_generation (history state) = Some g \<and> g \<noteq> [] \<and>
               json_loads g = Inl e \<and> e \<noteq> JSONDecodeError)"
    by (rule parse_content_raises)
  show "update_structure dict_update state = Inr s5 \<longrightarrow> history s5 = history state"
    using update_structure_history by blast
  show "propagate_summaries llm k state = Some (Inr (k6, s6))
      \<longrightarrow> history s6 = history state \<and> k < k6"
    using propagate_summaries_history by blast
  show "analyze_generate_parse llm json_loads k state = Some (Inr (k'', s4))
      \<longrightarrow> length (history s4) = length (history state) + 3 \<or>
          (length (history s4) = length (history state) + 2 \<and> last (history s4) = Generation [])"
    using analyze_generate_parse_history by blast
qed

lemma get_path_to_current_root_only:
  "get_path_to_current
     \<lparr>nodes = [(''root'', ProjectNode ''root'' g [] [] [] None)],
      current_focus_id = ''root'', history = h\<rparr> =
   Some (Inr [ProjectNode ''root'' g [] [] [] None])"
  by (simp add: get_path_to_current_def
        path_walk_step[where node = "ProjectNode ''root'' g [] [] [] None"]
        path_walk_stop truthy_def dict_get_def)

lemma analyze_current_state_example:
  "analyze_current_state (\<lambda>k p. ''{}'') 0 (create_project ''g'') =
      Some (Inr ((create_project ''g'')\<lparr>history := [Analysis ''{}'']\<rparr>))"
  by (simp add: analyze_current_state_def get_path_to_current_root_only get_current_node_def
        create_project_def dict_get_def)

lemma analyze_generate_parse_example:
  "analyze_generate_parse (\<lambda>k p. ''{}'') json_loads_lg_example 0 (create_project ''g'') =
     Some (Inr (2, \<lparr>nodes = [(''root'', ProjectNode ''root'' ''g'' [] [] [] None)],
                    current_focus_id = ''root'',
                    history = [Analysis ''{}'', Generation ''{}'', ParsingSuccess (PyDict [])]\<rparr>))"
  by (simp add: analyze_generate_parse_def analyze_current_state_example)
     (simp add: generate_content_def parse_content_def get_current_node_def create_project_def
        dict_get_def json_loads_lg_example_def)

lemma propagate_summaries_example:
  "propagate_summaries (\<lambda>k p. ''{}'') 0 (create_project ''g'') =
     Some (Inr (Suc 0, (create_project ''g'')
        \<lparr>nodes := [(''root'', ProjectNode ''root'' ''g'' [] ''{}'' [] None)]\<rparr>))"
proof -
  have w: "propagate_walk llm k ns None = Some (Inr (k, ns))" for llm k ns
    by (subst propagate_walk.simps) (simp add: truthy_def)
  show ?thesis
    by (simp add: propagate_summaries_def get_current_node_def create_project_def dict_get_def
          w Let_def)
qed

theorem history_grows_per_node_witness:
  "analyze_current_state (\<lambda>k p. ''{}'') 0 (create_project ''g'') =
     Some (Inr ((create_project ''g'')\<lparr>history := [Analysis ''{}'']\<rparr>)) \<and>
   \<not> cyclic_chain (nodes (create_project ''g'')) (current_focus_id (create_project ''g'')) \<and>
   generate_content (\<lambda>k p. ''{}'') 0 (create_project ''g'') =
     Inr ((create_project ''g'')\<lparr>history := [Generation ''{}'']\<rparr>) \<and>
   (\<exists>g. (create_project ''g'')\<lparr>history := [Generation ''{}'']\<rparr> =
        (create_project ''g'')\<lparr>history := history (create_project ''g'') @ [Generation g]\<rparr>) \<and>
   parse_content (\<lambda>k p. ''{}'') json_loads_lg_example 0
       ((create_project ''g'')\<lparr>history := [Generation ''{}'']\<rparr>) =
     Inr (0, (create_project ''g'')\<lparr>history := [Generation ''{}'', ParsingSuccess (PyDict [])]\<rparr>) \<and>
   parse_content (\<lambda>k p. ''{}'') json_loads_lg_example 0
       ((create_project ''g'')\<lparr>history := [Generation ''x'']\<rparr>) =
     Inr (Suc 0, (create_project ''g'')\<lparr>history := [Generation ''x'', ParsingRecovered ''{}'']\<rparr>) \<and>
   parse_content (\<lambda>k p. ''{}'') (\<lambda>s. Inl RecursionError) 0
       ((create_project ''g'')\<lparr>history := [Generation ''x'']\<rparr>) = Inl RecursionError \<and>
   json_loads_lg_example ''x'' = Inl JSONDecodeError \<and>
   update_structure dict_update_example
       ((create_project ''g'')\<lparr>history := [ParsingSuccess (PyDict [(''a'', PyInt 1)])]\<rparr>) =
     Inr \<lparr>nodes = [(''root'', ProjectNode ''root'' ''g'' [(''a'', PyInt 1)] [] [] None)],
          current_focus_id = ''root'',
          history = [ParsingSuccess (PyDict [(''a'', PyInt 1)])]\<rparr> \<and>
   history \<lparr>nodes = [(''root'', ProjectNode ''root'' ''g'' [(''a'', PyInt 1)] [] [] None)],
            current_focus_id = ''root'',
            history = [ParsingSuccess (PyDict [(''a'', PyInt 1)])]\<rparr> =
     history ((create_project ''g'')\<lparr>history := [ParsingSuccess (PyDict [(''a'', PyInt 1)])]\<rparr>) \<and>
   propagate_summaries (\<lambda>k p. ''{}'') 0 (create_project ''g'') =
     Some (Inr (Suc 0, (create_project ''g'')
        \<lparr>nodes := [(''root'', ProjectNode ''root'' ''g'' [] ''{}'' [] None)]\<rparr>)) \<and>
   history ((create_project ''g'')
        \<lparr>nodes := [(''root'', ProjectNode ''root'' ''g'' [] ''{}'' [] None)]\<rparr>) =
     history (create_project ''g'') \<and>
   analyze_generate_parse (\<lambda>k p. ''{}'') json_loads_lg_example 0 (create_project ''g'') =
     Some (Inr (2, \<lparr>nodes = [(''root'', ProjectNode ''root'' ''g'' [] [] [] None)],
                    current_focus_id = ''root'',
                    history = [Analysis ''{}'', Generation ''{}'', ParsingSuccess (PyDict [])]\<rparr>)) \<and>
   length [Analysis ''{}'', Generation ''{}'', ParsingSuccess (PyDict [])] =
     length (history (create_project ''g'')) + 3 \<and>
   last [Analysis ''{}'', Generation ''{}'', ParsingSuccess (PyDict [])] \<noteq> Generation []"
proof -
  let ?llm = "\<lambda>(k::nat) (p::lg_prompt). ''{}''"
  let ?cp = "create_project ''g''"
  let ?moved = "?cp\<lparr>nodes := [(''root'', ProjectNode ''root'' ''g'' [] ''{}'' [] None)]\<rparr>"
  let ?gx = "?cp\<lparr>history := [Generation ''x'']\<rparr>"
  note a = analyze_current_state_example
  note inst = history_grows_per_node[of ?llm 0 ?cp "?cp\<lparr>history := [Generation ''{}'']\<rparr>"
      json_loads_lg_example 0 ?cp KeyError dict_update_example ?cp "Suc 0" ?moved]
  note raising = history_grows_per_node[of ?llm 0 ?gx ?gx "\<lambda>s. Inl RecursionError" 0 ?gx
      RecursionError]
  have cur: "get_current_node ?cp = Inr (ProjectNode ''root'' ''g'' [] [] [] None)"
    by (simp add: get_current_node_def create_project_def dict_get_def)
  from a have nn: "analyze_current_state ?llm 0 ?cp \<noteq> None" by simp
  from inst[THEN conjunct2, THEN conjunct1] nn cur have c: "\<not> cyclic_chain (nodes ?cp) (current_focus_id ?cp)" by blast
  have g: "generate_content ?llm 0 ?cp = Inr (?cp\<lparr>history := [Generation ''{}'']\<rparr>)"
    by (simp add: generate_content_def get_current_node_def create_project_def dict_get_def)
  from inst[THEN conjunct2, THEN conjunct2, THEN conjunct1] g have g': "\<exists>x. ?cp\<lparr>history := [Generation ''{}'']\<rparr> =
      ?cp\<lparr>history := history ?cp @ [Generation x]\<rparr>"
    by blast
  have p1: "parse_content ?llm json_loads_lg_example 0 (?cp\<lparr>history := [Generation ''{}'']\<rparr>) =
      Inr (0, ?cp\<lparr>history := [Generation ''{}'', ParsingSuccess (PyDict [])]\<rparr>)"
    by (simp add: parse_content_def json_loads_lg_example_def create_project_def)
  have p2: "parse_content ?llm json_loads_lg_example 0 ?gx =
      Inr (Suc 0, ?cp\<lparr>history := [Generation ''x'', ParsingRecovered ''{}'']\<rparr>)"
    by (simp add: parse_content_def json_loads_lg_example_def create_project_def)
  have "\<exists>t. last_generation (history ?gx) = Some t \<and> t \<noteq> [] \<and>
      (\<lambda>s::string. (Inl RecursionError :: py_error + pyobj)) t = Inl RecursionError \<and>
      RecursionError \<noteq> JSONDecodeError"
    by (intro exI[of _ "''x''"]) (simp add: create_project_def)
  with raising[THEN conjunct2, THEN conjunct2, THEN conjunct2, THEN conjunct2, THEN conjunct1] have p3: "parse_content ?llm (\<lambda>s. Inl RecursionError) 0 ?gx = Inl RecursionError"
    by blast
  have u: "update_structure dict_update_example
       (?cp\<lparr>history := [ParsingSuccess (PyDict [(''a'', PyInt 1)])]\<rparr>) =
     Inr \<lparr>nodes = [(''root'', ProjectNode ''root'' ''g'' [(''a'', PyInt 1)] [] [] None)],
          current_focus_id = ''root'',
          history = [ParsingSuccess (PyDict [(''a'', PyInt 1)])]\<rparr>"
    by (simp add: update_structure_def dict_update_example_def get_current_node_def
          create_project_def dict_get_def)
  let ?parsed = "?cp\<lparr>history := [ParsingSuccess (PyDict [(''a'', PyInt 1)])]\<rparr>"
  let ?updated = "\<lparr>nodes = [(''root'', ProjectNode ''root'' ''g'' [(''a'', PyInt 1)] [] [] None)],
          current_focus_id = ''root'',
          history = [ParsingSuccess (PyDict [(''a'', PyInt 1)])]\<rparr>"
  note updating = history_grows_per_node[of ?llm 0 ?parsed ?parsed json_loads_lg_example 0 ?parsed
      KeyError dict_update_example ?updated]
  from updating[THEN conjunct2, THEN conjunct2, THEN conjunct2, THEN conjunct2, THEN conjunct2, THEN conjunct1] u have u': "history ?updated = history ?parsed" by blast
  note s = propagate_summaries_example
  from inst[THEN conjunct2, THEN conjunct2, THEN conjunct2, THEN conjunct2, THEN conjunct2, THEN conjunct2, THEN conjunct1] s have s': "history ?moved = history ?cp" by blast
  note recovering = history_grows_per_node[of ?llm 0 ?gx ?gx json_loads_lg_example "Suc 0"
      "?cp\<lparr>history := [Generation ''x'', ParsingRecovered ''{}'']\<rparr>"]
  from recovering[THEN conjunct2, THEN conjunct2, THEN conjunct2, THEN conjunct1] p2
  have r: "json_loads_lg_example ''x'' = Inl JSONDecodeError"
    by (simp add: create_project_def)
  note e = analyze_generate_parse_example
  let ?final = "\<lparr>nodes = [(''root'', ProjectNode ''root'' ''g'' [] [] [] None)],
      current_focus_id = ''root'',
      history = [Analysis ''{}'', Generation ''{}'', ParsingSuccess (PyDict [])]\<rparr>"
  note passing = history_grows_per_node[of ?llm 0 ?cp ?cp json_loads_lg_example 0 ?cp KeyError
      dict_update_example ?cp 0 ?cp 2 ?final]
  from passing[THEN conjunct2, THEN conjunct2, THEN conjunct2, THEN conjunct2, THEN conjunct2,
      THEN conjunct2, THEN conjunct2] e
  have three: "length (history ?final) = length (history ?cp) + 3 \<or>
      (length (history ?final) = length (history ?cp) + 2 \<and> last (history ?final) = Generation [])"
    by blast
  have len: "length [Analysis ''{}'', Generation ''{}'', ParsingSuccess (PyDict [])] =
     length (history ?cp) + 3"
    by (simp add: create_project_def)
  from three have len3: "last [Analysis ''{}'', Generation ''{}'', ParsingSuccess (PyDict [])] \<noteq>
      Generation []"
    by simp
  from a c g g' p1 p2 p3 r u u' s s' e len len3 show ?thesis by blast
qed

theorem history_one_entry_counterexample:
  "analyze_generate_parse (\<lambda>k p. ''{}'') json_loads_lg_example 0 (create_project ''g'') =
     Some (Inr (2, \<lparr>nodes = [(''root'', ProjectNode ''root'' ''g'' [] [] [] None)],
                    current_focus_id = ''root'',
                    history = [Analysis ''{}'', Generation ''{}'', ParsingSuccess (PyDict [])]\<rparr>)) \<and>
   history (create_project ''g'') = []"
  by (simp add: analyze_generate_parse_example) (simp add: create_project_def)


section \<open>The task-aware parser\<close>






section \<open>Objects and addresses: what \<open>_apply_changes\<close> writes\<close>









subsection \<open>The heap model computes the state that the value model computes\<close>




















end
